theory Spec2Isabelle
  imports Complex_Main "HOL-Library.Char_ord" "HOL-Library.List_Lexorder" "HOL-Library.Multiset"
begin

section \<open>Text\<close>

text \<open>
  Python strings are sequences of code points. The model reads a \<^typ>\<open>char\<close> as the code
  point with the same number, so it covers text whose code points are below 256. The
  character classes below are the ones Python's \<^verbatim>\<open>str.isspace\<close>, \<^verbatim>\<open>\s\<close>,
  \<^verbatim>\<open>\d\<close> and \<^verbatim>\<open>\w\<close> have on that range.
\<close>

definition is_space :: "char \<Rightarrow> bool" where
  "is_space c = (c \<in> {CHR 0x09, CHR 0x0A, CHR 0x0B, CHR 0x0C, CHR 0x0D,
                        CHR 0x1C, CHR 0x1D, CHR 0x1E, CHR 0x1F, CHR 0x20, CHR 0x85, CHR 0xA0})"

definition is_digit :: "char \<Rightarrow> bool" where
  "is_digit c = (c \<in> set ''0123456789'')"

definition is_word :: "char \<Rightarrow> bool" where
  "is_word c =
     (is_digit c \<or> c = CHR ''_''
      \<or> c \<in> set ''ABCDEFGHIJKLMNOPQRSTUVWXYZ''
      \<or> c \<in> set ''abcdefghijklmnopqrstuvwxyz''
      \<or> (of_char c :: nat) \<in> {170, 178, 179, 181, 185, 186, 188, 189, 190}
      \<or> (192 \<le> (of_char c :: nat) \<and> (of_char c :: nat) \<noteq> 215 \<and> (of_char c :: nat) \<noteq> 247))"

definition newline :: char where
  "newline = CHR 0x0A"

text \<open>\<^verbatim>\<open>str.rstrip()\<close> and \<^verbatim>\<open>str.strip()\<close> with no argument.\<close>

definition rstrip :: "string \<Rightarrow> string" where
  "rstrip s = rev (dropWhile is_space (rev s))"

definition strip :: "string \<Rightarrow> string" where
  "strip s = dropWhile is_space (rstrip s)"

text \<open>\<^verbatim>\<open>s.split(':')\<close>: always at least one piece, empty pieces kept.\<close>

fun split_colon :: "string \<Rightarrow> string list" where
  "split_colon [] = [[]]"
| "split_colon (c # cs) =
     (if c = CHR '':'' then [] # split_colon cs
      else (case split_colon cs of
              [] \<Rightarrow> [[c]]
            | p # ps \<Rightarrow> (c # p) # ps))"

text \<open>\<^verbatim>\<open>':'.join(parts)\<close>.\<close>

fun join_colon :: "string list \<Rightarrow> string" where
  "join_colon [] = []"
| "join_colon [p] = p"
| "join_colon (p # q # ps) = p @ CHR '':'' # join_colon (q # ps)"

text \<open>\<^verbatim>\<open>s.startswith(prefix)\<close>.\<close>

definition startswith :: "string \<Rightarrow> string \<Rightarrow> bool" where
  "startswith s pre = (take (length pre) s = pre)"

section \<open>Decimal numbers and dates\<close>

text \<open>
  A \<^verbatim>\<open>decimal.Decimal\<close> is a signed coefficient and an exponent. The record keeps the
  coefficient and the number of fractional digits, the value being
  \<open>coefficient / 10 ^ places\<close>: this is Python's representation whenever the exponent is
  zero or negative, as it is for every amount the parser reads. A result that Python
  keeps with a positive exponent is kept here as the integer of the same value; such a
  result is only computed with and stored, never printed. A negative zero does not
  arise: the parser reads no sign, and negating or summing to zero gives a positive zero.
\<close>

record decimal =
  coefficient :: int
  places :: nat

fun nat_digits :: "nat \<Rightarrow> string" where
  "nat_digits n =
     (if n < 10 then [''0123456789'' ! n]
      else nat_digits (n div 10) @ [''0123456789'' ! (n mod 10)])"

text \<open>
  Arithmetic on Decimals rounds its result to the precision of the context, which this
  program leaves at the default: 28 significant digits, rounding half to even
  (\<^verbatim>\<open>Decimal._fix\<close>). A coefficient of up to 28 digits stays as it is. Of a longer one
  the first 28 digits are kept and rounded, and a carry out of them leaves a one with 27
  zeros. The exponent limits of the context (numbers of a million digits) are not in the
  model.
\<close>

definition dec_fix :: "decimal \<Rightarrow> decimal" where
  "dec_fix d =
     (let n = \<bar>coefficient d\<bar>
      in if n < 10 ^ 28 then d
         else (let k = length (nat_digits (nat n)) - 28;
                   q0 = n div 10 ^ k;
                   r = n mod 10 ^ k;
                   q1 = (if 10 ^ k < 2 * r \<or> (2 * r = 10 ^ k \<and> odd q0) then q0 + 1 else q0);
                   q = (if q1 = 10 ^ 28 then 10 ^ 27 else q1);
                   e = (if q1 = 10 ^ 28 then k + 1 else k);
                   s = (if coefficient d < 0 then - 1 else 1)
               in \<lparr>coefficient = s * q * 10 ^ (e - places d), places = places d - e\<rparr>))"

definition Decimal_0_00 :: decimal where
  "Decimal_0_00 = \<lparr>coefficient = 0, places = 2\<rparr>"

definition dec_of_int :: "int \<Rightarrow> decimal" where
  "dec_of_int n = \<lparr>coefficient = n, places = 0\<rparr>"

text \<open>
  \<^verbatim>\<open>a + b\<close>: the exact sum, written with the fractional digits of the operand that has
  more of them, then rounded. \<^verbatim>\<open>-a\<close>: the negation, rounded.
\<close>

definition dec_add :: "decimal \<Rightarrow> decimal \<Rightarrow> decimal" where
  "dec_add a b =
     (let p = max (places a) (places b)
      in dec_fix
           \<lparr>coefficient = coefficient a * 10 ^ (p - places a) + coefficient b * 10 ^ (p - places b),
            places = p\<rparr>)"

definition dec_neg :: "decimal \<Rightarrow> decimal" where
  "dec_neg a = dec_fix \<lparr>coefficient = - coefficient a, places = places a\<rparr>"

text \<open>Truth value of a Decimal: false exactly for zero.\<close>

definition dec_truthy :: "decimal \<Rightarrow> bool" where
  "dec_truthy a = (coefficient a \<noteq> 0)"

text \<open>
  Python's \<^verbatim>\<open>sum(ds)\<close>: starts from the integer 0 and adds from the left, each addition
  rounding as above (so the sum of a single Decimal is that Decimal rounded).
\<close>

definition py_sum :: "decimal list \<Rightarrow> decimal" where
  "py_sum ds = foldl dec_add (dec_of_int 0) ds"

definition zfill :: "nat \<Rightarrow> string \<Rightarrow> string" where
  "zfill w s = replicate (w - length s) CHR ''0'' @ s"

text \<open>
  \<^verbatim>\<open>str(d)\<close> in plain notation, which is what Python prints for the Decimals that
  this program prints: the amounts as the parser read them, with no or two fractional
  digits.
\<close>

definition str_decimal :: "decimal \<Rightarrow> string" where
  "str_decimal d =
     (let ds = zfill (Suc (places d)) (nat_digits (nat \<bar>coefficient d\<bar>));
          k = length ds - places d;
          body = (if places d = 0 then ds else take k ds @ CHR ''.'' # drop k ds)
      in (if coefficient d < 0 then CHR ''-'' # body else body))"

text \<open>
  The parser builds dates with \<^verbatim>\<open>strptime(s, "%Y/%m/%d")\<close>, so the time of day is
  always midnight and only the calendar date is kept.
\<close>

record datetime =
  year :: nat
  month :: nat
  day :: nat

definition isoformat :: "datetime \<Rightarrow> string" where
  "isoformat d =
     zfill 4 (nat_digits (year d)) @ ''-'' @ zfill 2 (nat_digits (month d)) @ ''-''
     @ zfill 2 (nat_digits (day d)) @ ''T00:00:00''"

section \<open>Parsed transactions and their hash\<close>

record posting =
  account :: string
  amount :: "decimal option"
  currency :: string

record parsed_transaction =
  date :: datetime
  payee :: string
  postings :: "posting list"

definition amount_str :: "posting \<Rightarrow> string" where
  "amount_str p =
     (case amount p of
        None \<Rightarrow> []
      | Some d \<Rightarrow> if dec_truthy d then str_decimal d else [])"

definition render_posting :: "posting \<Rightarrow> string" where
  "render_posting p = account p @ '':'' @ amount_str p @ '':'' @ currency p @ ''|''"

text \<open>
  The string that \<^verbatim>\<open>calculate_hash\<close> digests. \<^verbatim>\<open>sorted\<close> is stable and compares
  the keys as strings, by code point; so does \<^const>\<open>sort_key\<close> on \<^typ>\<open>string\<close>.
\<close>

definition hash_content :: "parsed_transaction \<Rightarrow> string" where
  "hash_content t =
     isoformat (date t) @ ''|'' @ payee t @ ''|''
     @ concat (map render_posting (sort_key account (postings t)))"

text \<open>
  \<^verbatim>\<open>hashlib.sha256(...).hexdigest()\<close> belongs to the Python library, not to this
  program: the digest is the parameter \<open>H\<close>.
\<close>

definition calculate_hash :: "(string \<Rightarrow> string) \<Rightarrow> parsed_transaction \<Rightarrow> string" where
  "calculate_hash H t = H (hash_content t)"

section \<open>The store\<close>

text \<open>
  The tables of \<^verbatim>\<open>models.py\<close>, each a list of rows in insertion order. A query with
  \<^verbatim>\<open>.first()\<close> is \<^const>\<open>find\<close>; \<^verbatim>\<open>add\<close> followed by \<^verbatim>\<open>flush\<close> appends
  a row and gives it the next primary key (SQLite: one more than the largest key in the
  table). The column values the importer sets are kept; timestamps are not. An amount is
  kept as the Decimal that the importer hands to the session; how the storage engine
  holds a \<^verbatim>\<open>Numeric\<close> column is not in the model.
\<close>

record account_row =
  acc_id :: nat
  acc_name :: string
  acc_full_path :: string
  acc_parent_id :: "nat option"

record transaction_row =
  txn_id :: nat
  txn_date :: datetime
  txn_payee :: string
  txn_hash :: string

record posting_row =
  pm_transaction_id :: nat
  pm_account_id :: nat
  pm_amount :: decimal
  pm_currency :: string

record balance_row =
  ab_account_id :: nat
  ab_balance :: decimal
  ab_currency :: string

record db =
  db_accounts :: "account_row list"
  db_transactions :: "transaction_row list"
  db_postings :: "posting_row list"
  db_balances :: "balance_row list"

definition empty_db :: db where
  "empty_db = \<lparr>db_accounts = [], db_transactions = [], db_postings = [], db_balances = []\<rparr>"

definition next_id :: "nat list \<Rightarrow> nat" where
  "next_id ids = Suc (foldr max ids 0)"

datatype exn = FileNotFoundError | IsADirectoryError | InvalidOperation | AttributeError

section \<open>Importer.get\_or\_create\_account\<close>

text \<open>
  The loop \<^verbatim>\<open>for i, part in enumerate(parts)\<close>: \<open>seen\<close> is \<^verbatim>\<open>parts[:i]\<close>, so
  \<^verbatim>\<open>':'.join(parts[:i+1])\<close> is \<open>join_colon (seen @ [part])\<close>.
\<close>

fun create_hierarchy ::
  "string list \<Rightarrow> string list \<Rightarrow> account_row option \<Rightarrow> db \<Rightarrow> account_row option \<times> db" where
  "create_hierarchy seen [] parent d = (parent, d)"
| "create_hierarchy seen (part # rest) parent d =
     (let current_path = join_colon (seen @ [part])
      in case find (\<lambda>a. acc_full_path a = current_path) (db_accounts d) of
           Some a \<Rightarrow> create_hierarchy (seen @ [part]) rest (Some a) d
         | None \<Rightarrow>
             (let a = \<lparr>acc_id = next_id (map acc_id (db_accounts d)),
                       acc_name = part,
                       acc_full_path = current_path,
                       acc_parent_id = map_option acc_id parent\<rparr>
              in create_hierarchy (seen @ [part]) rest (Some a)
                   (d\<lparr>db_accounts := db_accounts d @ [a]\<rparr>)))"

definition get_or_create_account :: "string \<Rightarrow> db \<Rightarrow> account_row option \<times> db" where
  "get_or_create_account account_path d =
     (case find (\<lambda>a. acc_full_path a = account_path) (db_accounts d) of
        Some existing \<Rightarrow> (Some existing, d)
      | None \<Rightarrow> create_hierarchy [] (split_colon account_path) None d)"

section \<open>Importer.get\_or\_create\_transaction\<close>

text \<open>\<^verbatim>\<open>[p.amount for p in postings if p.amount is not None]\<close>.\<close>

fun amounts_of :: "posting list \<Rightarrow> decimal list" where
  "amounts_of [] = []"
| "amounts_of (p # ps) =
     (case amount p of None \<Rightarrow> amounts_of ps | Some a \<Rightarrow> a # amounts_of ps)"

text \<open>
  The assignment to \<^verbatim>\<open>postings_without_amounts[0]\<close>: that object is the first posting
  of the transaction without an amount, and the later loop over the transaction's
  postings sees the change.
\<close>

fun balance_missing :: "decimal \<Rightarrow> string \<Rightarrow> posting list \<Rightarrow> posting list" where
  "balance_missing a c [] = []"
| "balance_missing a c (p # ps) =
     (if amount p = None then p\<lparr>amount := Some a, currency := c\<rparr> # ps
      else p # balance_missing a c ps)"

text \<open>
  The loop that writes the posting rows. \<^verbatim>\<open>account.id\<close> on a missing account would
  raise; the rows written before stay in the session.
\<close>

fun create_postings :: "nat \<Rightarrow> posting list \<Rightarrow> db \<Rightarrow> exn option \<times> db" where
  "create_postings tid [] d = (None, d)"
| "create_postings tid (p # ps) d =
     (case get_or_create_account (account p) d of
        (None, d') \<Rightarrow> (Some AttributeError, d')
      | (Some a, d') \<Rightarrow>
          create_postings tid ps
            (d'\<lparr>db_postings := db_postings d' @
                  [\<lparr>pm_transaction_id = tid,
                    pm_account_id = acc_id a,
                    pm_amount = (case amount p of Some x \<Rightarrow> x | None \<Rightarrow> Decimal_0_00),
                    pm_currency = currency p\<rparr>]\<rparr>))"

text \<open>
  The result is what the call returns or raises, with the store as the call leaves it.
  The balance check between inference and the writing of the rows only logs, and is not
  in the model.
\<close>

definition get_or_create_transaction ::
  "(string \<Rightarrow> string) \<Rightarrow> parsed_transaction \<Rightarrow> db \<Rightarrow> (exn + transaction_row option) \<times> db" where
  "get_or_create_transaction H t d =
     (let transaction_hash = calculate_hash H t
      in case find (\<lambda>x. txn_hash x = transaction_hash) (db_transactions d) of
           Some existing \<Rightarrow> (Inr None, d)
         | None \<Rightarrow>
             (let transaction = \<lparr>txn_id = next_id (map txn_id (db_transactions d)),
                                 txn_date = date t,
                                 txn_payee = payee t,
                                 txn_hash = transaction_hash\<rparr>;
                  d1 = d\<lparr>db_transactions := db_transactions d @ [transaction]\<rparr>;
                  postings_with_amounts = filter (\<lambda>p. amount p \<noteq> None) (postings t);
                  postings_without_amounts = filter (\<lambda>p. amount p = None) (postings t);
                  total_amount = (if postings_with_amounts \<noteq> []
                                  then py_sum (amounts_of postings_with_amounts)
                                  else Decimal_0_00)
              in if length postings_without_amounts = 1 \<and> postings_with_amounts \<noteq> []
                 then (case create_postings (txn_id transaction)
                              (balance_missing (dec_neg total_amount)
                                 (case postings_with_amounts of [] \<Rightarrow> ''INR'' | p # _ \<Rightarrow> currency p)
                                 (postings t)) d1 of
                         (Some e, d2) \<Rightarrow> (Inl e, d2)
                       | (None, d2) \<Rightarrow> (Inr (Some transaction), d2))
                 else if length postings_without_amounts > 1
                 then (Inr None, d1)
                 else (case create_postings (txn_id transaction) (postings t) d1 of
                         (Some e, d2) \<Rightarrow> (Inl e, d2)
                       | (None, d2) \<Rightarrow> (Inr (Some transaction), d2))))"

section \<open>Balances\<close>

definition calculate_account_balance :: "db \<Rightarrow> nat \<Rightarrow> decimal \<times> string" where
  "calculate_account_balance d account_id =
     (case find (\<lambda>a. acc_id a = account_id) (db_accounts d) of
        None \<Rightarrow> (Decimal_0_00, ''INR'')
      | Some acct \<Rightarrow>
          (case filter (\<lambda>p. pm_account_id p = account_id) (db_postings d) of
             [] \<Rightarrow> (Decimal_0_00, ''INR'')
           | p0 # ps \<Rightarrow>
               (let raw_balance = py_sum (map pm_amount (p0 # ps));
                    cur = pm_currency p0;
                    account_path = acc_full_path acct;
                    display_balance =
                      (if startswith account_path ''Assets'' then raw_balance
                       else if startswith account_path ''Income'' then dec_neg raw_balance
                       else if startswith account_path ''Expenses'' then raw_balance
                       else if startswith account_path ''Liabilities''
                               \<or> startswith account_path ''Equity'' then dec_neg raw_balance
                       else raw_balance)
                in (display_balance, cur))))"

text \<open>The cache row of an account: the first one is updated, or a new one is added.\<close>

fun upsert_balance :: "nat \<Rightarrow> decimal \<Rightarrow> string \<Rightarrow> balance_row list \<Rightarrow> balance_row list" where
  "upsert_balance aid b c [] = [\<lparr>ab_account_id = aid, ab_balance = b, ab_currency = c\<rparr>]"
| "upsert_balance aid b c (r # rs) =
     (if ab_account_id r = aid then r\<lparr>ab_balance := b, ab_currency := c\<rparr> # rs
      else r # upsert_balance aid b c rs)"

definition update_one_balance :: "db \<Rightarrow> account_row \<Rightarrow> db" where
  "update_one_balance d acct =
     (case calculate_account_balance d (acc_id acct) of
        (balance, cur) \<Rightarrow>
          d\<lparr>db_balances := upsert_balance (acc_id acct) balance cur (db_balances d)\<rparr>)"

definition update_account_balances :: "db \<Rightarrow> db" where
  "update_account_balances d = foldl update_one_balance d (db_accounts d)"

section \<open>The ledger parser\<close>

text \<open>
  Every regular expression of \<^verbatim>\<open>LedgerParser\<close> is applied to a line that has just been
  through \<^verbatim>\<open>rstrip\<close>. On such a line each pattern can match in one way only, which the
  functions below compute; they return the groups the source reads.

  \<^verbatim>\<open>(.+)$\<close> and \<^verbatim>\<open>(.+?)$\<close> at the end of a pattern take the rest of the line, which
  must not be empty and must not hold a newline.
\<close>

definition rest_of_line :: "string \<Rightarrow> bool" where
  "rest_of_line r = (r \<noteq> [] \<and> newline \<notin> set r)"

text \<open>
  \<^verbatim>\<open>ALIAS_PATTERN = ^alias\s+(\w+)=(.+)$|^(\w+)=(.+)$\<close>: the key and the stripped value
  of whichever form matches, the \<^verbatim>\<open>alias\<close> form first.
\<close>

definition alias_keyword_form :: "string \<Rightarrow> (string \<times> string) option" where
  "alias_keyword_form line =
     (let r = drop 5 line;
          r1 = dropWhile is_space r;
          key = takeWhile is_word r1
      in if take 5 line = ''alias'' \<and> r1 \<noteq> r \<and> key \<noteq> []
         then (case dropWhile is_word r1 of
                 [] \<Rightarrow> None
               | c # v \<Rightarrow> if c = CHR ''='' \<and> rest_of_line v then Some (key, strip v) else None)
         else None)"

definition alias_bare_form :: "string \<Rightarrow> (string \<times> string) option" where
  "alias_bare_form line =
     (let key = takeWhile is_word line
      in if key \<noteq> []
         then (case dropWhile is_word line of
                 [] \<Rightarrow> None
               | c # v \<Rightarrow> if c = CHR ''='' \<and> rest_of_line v then Some (key, strip v) else None)
         else None)"

definition alias_match :: "string \<Rightarrow> (string \<times> string) option" where
  "alias_match line =
     (case alias_keyword_form line of
        Some kv \<Rightarrow> Some kv
      | None \<Rightarrow> alias_bare_form line)"

text \<open>
  \<^verbatim>\<open>parse_aliases\<close>: the loop state is the alias dictionary, the flag
  \<^verbatim>\<open>in_aliases\<close> and the list \<^verbatim>\<open>remaining_lines\<close>.
\<close>

fun parse_aliases_loop ::
  "string list \<Rightarrow> (string \<rightharpoonup> string) \<Rightarrow> bool \<Rightarrow> string list
     \<Rightarrow> (string \<rightharpoonup> string) \<times> string list" where
  "parse_aliases_loop [] aliases in_aliases remaining_lines = (aliases, remaining_lines)"
| "parse_aliases_loop (l # ls) aliases in_aliases remaining_lines =
     (let line = rstrip l
      in if in_aliases \<and> strip line = []
         then parse_aliases_loop ls aliases in_aliases remaining_lines
         else (case alias_match line of
                 Some (key, v) \<Rightarrow> parse_aliases_loop ls (aliases(key \<mapsto> v)) True remaining_lines
               | None \<Rightarrow> parse_aliases_loop ls aliases False (remaining_lines @ [line])))"

definition parse_aliases :: "string list \<Rightarrow> (string \<rightharpoonup> string) \<times> string list" where
  "parse_aliases lines = parse_aliases_loop lines Map.empty True []"

definition expand_aliases :: "(string \<rightharpoonup> string) \<Rightarrow> string \<Rightarrow> string" where
  "expand_aliases aliases acct =
     join_colon (concat (map (\<lambda>part. case aliases part of
                                        Some v \<Rightarrow> split_colon v
                                      | None \<Rightarrow> [part])
                             (split_colon acct)))"

text \<open>
  \<^verbatim>\<open>AMOUNT_PATTERN.search\<close>, an optional rupee sign, \<^verbatim>\<open>\s*\<close> and the group
  \<^verbatim>\<open>([\d,]+(?:\.\d{2})?)\<close>: that group
  starts at the first digit or comma of the text, whatever stands before it, runs over
  the digits and commas, and takes a following dot with two digits. With the commas
  removed it goes to \<^verbatim>\<open>Decimal(...)\<close>, which raises \<^verbatim>\<open>decimal.InvalidOperation\<close> on
  the empty string; that is neither a \<^verbatim>\<open>ValueError\<close> nor a \<^verbatim>\<open>TypeError\<close>, so the
  handler of \<^verbatim>\<open>parse_amount\<close> lets it through. The currency is INR on every path.
\<close>

definition digit_or_comma :: "char \<Rightarrow> bool" where
  "digit_or_comma c = (is_digit c \<or> c = CHR '','')"

definition digit_value :: "char \<Rightarrow> nat" where
  "digit_value c = of_char c - 48"

definition digits_to_nat :: "string \<Rightarrow> nat" where
  "digits_to_nat ds = foldl (\<lambda>n c. 10 * n + digit_value c) 0 ds"

definition parse_amount :: "string \<Rightarrow> exn + (decimal option \<times> string)" where
  "parse_amount amount_text =
     (let r = dropWhile (\<lambda>c. \<not> digit_or_comma c) (strip amount_text)
      in if r = [] then Inr (None, ''INR'')
         else (let run = takeWhile digit_or_comma r;
                   frac = (case dropWhile digit_or_comma r of
                             c0 # c1 # c2 # _ \<Rightarrow>
                               if c0 = CHR ''.'' \<and> is_digit c1 \<and> is_digit c2 then [c1, c2] else []
                           | _ \<Rightarrow> []);
                   ds = filter (\<lambda>c. c \<noteq> CHR '','') run
               in if ds = [] \<and> frac = [] then Inl InvalidOperation
                  else Inr (Some \<lparr>coefficient = int (digits_to_nat (ds @ frac)),
                                  places = length frac\<rparr>, ''INR'')))"

text \<open>\<^verbatim>\<open>DATE_PATTERN = ^(\d{4}/\d{2}/\d{2})\s+(.+)$\<close>: the date text and the stripped payee.\<close>

definition date_shape :: "string \<Rightarrow> bool" where
  "date_shape s =
     (case s of
        [y1, y2, y3, y4, s1, m1, m2, s2, d1, d2] \<Rightarrow>
          is_digit y1 \<and> is_digit y2 \<and> is_digit y3 \<and> is_digit y4 \<and> s1 = CHR ''/''
          \<and> is_digit m1 \<and> is_digit m2 \<and> s2 = CHR ''/'' \<and> is_digit d1 \<and> is_digit d2
      | _ \<Rightarrow> False)"

definition date_match :: "string \<Rightarrow> (string \<times> string) option" where
  "date_match line =
     (let r = drop 10 line;
          r1 = dropWhile is_space r
      in if date_shape (take 10 line) \<and> r1 \<noteq> r \<and> rest_of_line r1
         then Some (take 10 line, strip r1)
         else None)"

text \<open>
  \<^verbatim>\<open>datetime.strptime(s, "%Y/%m/%d")\<close> on a text of that shape: a \<^verbatim>\<open>ValueError\<close>,
  here \<open>None\<close>, unless it is a date of the calendar.
\<close>

definition leap_year :: "nat \<Rightarrow> bool" where
  "leap_year y = (y mod 4 = 0 \<and> (y mod 400 = 0 \<or> y mod 100 \<noteq> 0))"

definition days_in_month :: "nat \<Rightarrow> nat \<Rightarrow> nat" where
  "days_in_month y m =
     (if m = 2 then (if leap_year y then 29 else 28)
      else if m \<in> {4, 6, 9, 11} then 30 else 31)"

definition strptime :: "string \<Rightarrow> datetime option" where
  "strptime s =
     (let y = digits_to_nat (take 4 s);
          m = digits_to_nat (take 2 (drop 5 s));
          dd = digits_to_nat (take 2 (drop 8 s))
      in if 1 \<le> y \<and> 1 \<le> m \<and> m \<le> 12 \<and> 1 \<le> dd \<and> dd \<le> days_in_month y m
         then Some \<lparr>year = y, month = m, day = dd\<rparr>
         else None)"

text \<open>
  \<^verbatim>\<open>POSTING_PATTERN = ^\s{4}(\S+)\s+(.+?)$\<close> and
  \<^verbatim>\<open>POSTING_ACCOUNT_ONLY_PATTERN = ^\s{4}(\S+)\s*$\<close>.
\<close>

definition posting_match :: "string \<Rightarrow> (string \<times> string) option" where
  "posting_match line =
     (let r = drop 4 line;
          acct = takeWhile (\<lambda>c. \<not> is_space c) r;
          r1 = dropWhile (\<lambda>c. \<not> is_space c) r;
          r2 = dropWhile is_space r1
      in if length (take 4 line) = 4 \<and> list_all is_space (take 4 line) \<and> acct \<noteq> []
            \<and> r1 \<noteq> [] \<and> rest_of_line r2
         then Some (acct, r2)
         else None)"

definition posting_account_only_match :: "string \<Rightarrow> string option" where
  "posting_account_only_match line =
     (let r = drop 4 line
      in if length (take 4 line) = 4 \<and> list_all is_space (take 4 line) \<and> r \<noteq> []
            \<and> list_all (\<lambda>c. \<not> is_space c) r
         then Some r
         else None)"

text \<open>\<^verbatim>\<open>COMMENT_PATTERN = ^\s*;\<close>.\<close>

definition comment_match :: "string \<Rightarrow> bool" where
  "comment_match line =
     (case dropWhile is_space line of [] \<Rightarrow> False | c # _ \<Rightarrow> c = CHR '';'')"

text \<open>The loop over the posting lines in \<^verbatim>\<open>parse_transaction\<close>.\<close>

fun parse_postings ::
  "(string \<rightharpoonup> string) \<Rightarrow> string list \<Rightarrow> posting list \<Rightarrow> exn + posting list" where
  "parse_postings aliases [] ps = Inr ps"
| "parse_postings aliases (l # ls) ps =
     (let posting_line = rstrip l
      in if strip posting_line = [] \<or> comment_match posting_line
         then parse_postings aliases ls ps
         else (case posting_match posting_line of
                 Some (a, amount_text) \<Rightarrow>
                   (case parse_amount (strip amount_text) of
                      Inl e \<Rightarrow> Inl e
                    | Inr (amt, cur) \<Rightarrow>
                        parse_postings aliases ls
                          (ps @ [\<lparr>account = expand_aliases aliases (strip a),
                                   amount = amt, currency = cur\<rparr>]))
               | None \<Rightarrow>
                   (case posting_account_only_match posting_line of
                      Some a \<Rightarrow>
                        parse_postings aliases ls
                          (ps @ [\<lparr>account = expand_aliases aliases (strip a),
                                   amount = None, currency = ''INR''\<rparr>])
                    | None \<Rightarrow> parse_postings aliases ls ps)))"

definition parse_transaction ::
  "(string \<rightharpoonup> string) \<Rightarrow> string \<Rightarrow> string list \<Rightarrow> exn + parsed_transaction option" where
  "parse_transaction aliases date_line posting_lines =
     (case date_match date_line of
        None \<Rightarrow> Inr None
      | Some (date_str, payee_text) \<Rightarrow>
          (case strptime date_str of
             None \<Rightarrow> Inr None
           | Some d \<Rightarrow>
               (case parse_postings aliases posting_lines [] of
                  Inl e \<Rightarrow> Inl e
                | Inr ps \<Rightarrow>
                    if ps = [] then Inr None
                    else Inr (Some \<lparr>date = d, payee = payee_text, postings = ps\<rparr>))))"

text \<open>
  The grouping loop of \<^verbatim>\<open>parse_file\<close>, and what follows it for the last transaction.
  The state is \<^verbatim>\<open>current_date_line\<close>, \<^verbatim>\<open>current_postings\<close> and
  \<^verbatim>\<open>transactions\<close>.
\<close>

definition close_transaction ::
  "(string \<rightharpoonup> string) \<Rightarrow> string option \<Rightarrow> string list \<Rightarrow> parsed_transaction list
     \<Rightarrow> exn + parsed_transaction list" where
  "close_transaction aliases current_date_line current_postings transactions =
     (case current_date_line of
        None \<Rightarrow> Inr transactions
      | Some date_line \<Rightarrow>
          (case parse_transaction aliases date_line current_postings of
             Inl e \<Rightarrow> Inl e
           | Inr None \<Rightarrow> Inr transactions
           | Inr (Some t) \<Rightarrow> Inr (transactions @ [t])))"

fun group_lines ::
  "(string \<rightharpoonup> string) \<Rightarrow> string list \<Rightarrow> string option \<Rightarrow> string list
     \<Rightarrow> parsed_transaction list \<Rightarrow> exn + parsed_transaction list" where
  "group_lines aliases [] current_date_line current_postings transactions =
     close_transaction aliases current_date_line current_postings transactions"
| "group_lines aliases (l # ls) current_date_line current_postings transactions =
     (let line = rstrip l
      in if strip line = [] \<or> comment_match line
         then group_lines aliases ls current_date_line current_postings transactions
         else if date_match line \<noteq> None
         then (case close_transaction aliases current_date_line current_postings transactions of
                 Inl e \<Rightarrow> Inl e
               | Inr transactions' \<Rightarrow> group_lines aliases ls (Some line) [] transactions')
         else (case current_date_line of
                 None \<Rightarrow> group_lines aliases ls current_date_line current_postings transactions
               | Some _ \<Rightarrow>
                   group_lines aliases ls current_date_line (current_postings @ [line])
                     transactions))"

text \<open>\<^verbatim>\<open>parse_file\<close> on the lines that \<^verbatim>\<open>readlines\<close> returned.\<close>

definition parse_lines :: "string list \<Rightarrow> exn + parsed_transaction list" where
  "parse_lines lines =
     (case parse_aliases lines of
        (aliases, remaining_lines) \<Rightarrow> group_lines aliases remaining_lines None [] [])"

section \<open>Importer.import\_ledger\_file\<close>

text \<open>
  What the importer sees of the file system: a path names nothing, a directory, or a
  readable text file with its lines. \<^verbatim>\<open>Path.exists\<close> holds for the last two;
  \<^verbatim>\<open>open\<close> succeeds on the last only.
\<close>

datatype fs_node = Absent | Directory | RegularFile "string list"

definition parse_ledger_file :: "(string \<Rightarrow> fs_node) \<Rightarrow> string \<Rightarrow> exn + parsed_transaction list" where
  "parse_ledger_file fs file_path =
     (case fs file_path of
        Absent \<Rightarrow> Inl FileNotFoundError
      | Directory \<Rightarrow> Inl IsADirectoryError
      | RegularFile lines \<Rightarrow> parse_lines lines)"

record import_result =
  imported :: nat
  skipped :: nat
  total_parsed :: nat

text \<open>
  The loop over the parsed transactions, with its \<^verbatim>\<open>try\<close> and \<^verbatim>\<open>except Exception\<close>.
  The call inside the \<^verbatim>\<open>try\<close> is the parameter \<open>proc\<close>, so that the loop is defined
  for whatever the call returns or raises (the storage engine can raise in it);
  \<open>import_ledger_file\<close> below passes \<open>get_or_create_transaction\<close>.
\<close>

fun import_transactions ::
  "(parsed_transaction \<Rightarrow> db \<Rightarrow> (exn + transaction_row option) \<times> db)
     \<Rightarrow> parsed_transaction list \<Rightarrow> nat \<Rightarrow> nat \<Rightarrow> db \<Rightarrow> nat \<times> nat \<times> db" where
  "import_transactions proc [] imported_count skipped_count d =
     (imported_count, skipped_count, d)"
| "import_transactions proc (t # ts) imported_count skipped_count d =
     (case proc t d of
        (Inr (Some transaction), d') \<Rightarrow>
          import_transactions proc ts (imported_count + 1) skipped_count d'
      | (Inr None, d') \<Rightarrow>
          import_transactions proc ts imported_count (skipped_count + 1) d'
      | (Inl e, d') \<Rightarrow>
          import_transactions proc ts imported_count (skipped_count + 1) d')"

definition settings_ledger_file_path :: string where
  "settings_ledger_file_path = ''/home/nox/Nox/Finance/transactions.ledger''"

definition import_ledger_file_with ::
  "(parsed_transaction \<Rightarrow> db \<Rightarrow> (exn + transaction_row option) \<times> db)
     \<Rightarrow> (string \<Rightarrow> fs_node) \<Rightarrow> string option \<Rightarrow> bool \<Rightarrow> db \<Rightarrow> exn + (import_result \<times> db)" where
  "import_ledger_file_with proc fs file_path update_balances d =
     (let path = (case file_path of None \<Rightarrow> settings_ledger_file_path | Some p \<Rightarrow> p)
      in if fs path = Absent then Inl FileNotFoundError
         else (case parse_ledger_file fs path of
                 Inl e \<Rightarrow> Inl e
               | Inr parsed_transactions \<Rightarrow>
                   (case import_transactions proc parsed_transactions 0 0 d of
                      (imported_count, skipped_count, d1) \<Rightarrow>
                        Inr (\<lparr>imported = imported_count,
                              skipped = skipped_count,
                              total_parsed = length parsed_transactions\<rparr>,
                             if update_balances then update_account_balances d1 else d1))))"

definition import_ledger_file ::
  "(string \<Rightarrow> string) \<Rightarrow> (string \<Rightarrow> fs_node) \<Rightarrow> string option \<Rightarrow> bool \<Rightarrow> db
     \<Rightarrow> exn + (import_result \<times> db)" where
  "import_ledger_file H = import_ledger_file_with (get_or_create_transaction H)"

section \<open>Notions used to state the properties\<close>

text \<open>The number that a Decimal stands for.\<close>

definition dec_value :: "decimal \<Rightarrow> rat" where
  "dec_value d = of_int (coefficient d) / 10 ^ places d"

text \<open>
  Amounts that the context does not round when they are summed in whatever order:
  written as whole multiples of the smallest unit among them (\<open>scaled\<close>, with the
  fractional digits of the one that has most of them), their absolute values add up to
  at most 28 digits. For amounts that are not negative, as the parser reads them, this
  says that their sum has at most 28 digits.
\<close>

definition max_places :: "decimal list \<Rightarrow> nat" where
  "max_places ds = foldr max (map places ds) 0"

definition scaled :: "nat \<Rightarrow> decimal \<Rightarrow> int" where
  "scaled P d = coefficient d * 10 ^ (P - places d)"

definition fits_context :: "decimal list \<Rightarrow> bool" where
  "fits_context ds = (sum_list (map (\<lambda>d. \<bar>scaled (max_places ds) d\<bar>) ds) < 10 ^ 28)"

text \<open>
  The raw balance of an account: the sum of the amounts of its posting rows, and 0.00
  for an account without rows, as \<^verbatim>\<open>calculate_account_balance\<close> computes it before
  the change of sign.
\<close>

definition raw_balance :: "db \<Rightarrow> nat \<Rightarrow> decimal" where
  "raw_balance d account_id =
     (case filter (\<lambda>p. pm_account_id p = account_id) (db_postings d) of
        [] \<Rightarrow> Decimal_0_00
      | p0 # ps \<Rightarrow> py_sum (map pm_amount (p0 # ps)))"

text \<open>The account paths whose balance is shown with the opposite sign.\<close>

definition sign_flipped :: "string \<Rightarrow> bool" where
  "sign_flipped path =
     (startswith path ''Income'' \<or> startswith path ''Liabilities'' \<or> startswith path ''Equity'')"

text \<open>The alias directives of a file: key and value of every line that has the alias form.\<close>

fun alias_directives :: "string list \<Rightarrow> (string \<times> string) list" where
  "alias_directives [] = []"
| "alias_directives (l # ls) =
     (case alias_match (rstrip l) of
        None \<Rightarrow> alias_directives ls
      | Some kv \<Rightarrow> kv # alias_directives ls)"

text \<open>The dictionary after the assignments \<^verbatim>\<open>aliases[key] = value\<close> in the order of a list.\<close>

definition assign_all :: "(string \<rightharpoonup> string) \<Rightarrow> (string \<times> string) list \<Rightarrow> (string \<rightharpoonup> string)" where
  "assign_all m kvs = foldl (\<lambda>m' kv. m'(fst kv \<mapsto> snd kv)) m kvs"

text \<open>
  The rows of a hierarchy built in an empty table: one for each prefix of the path, the
  parent of each the row before it.
\<close>

definition hierarchy_row :: "string list \<Rightarrow> nat \<Rightarrow> account_row" where
  "hierarchy_row parts k =
     \<lparr>acc_id = Suc k,
      acc_name = parts ! k,
      acc_full_path = join_colon (take (Suc k) parts),
      acc_parent_id = (if k = 0 then None else Some k)\<rparr>"

text \<open>
  What the call inside the \<^verbatim>\<open>try\<close> gave for each transaction of a run, in order.
\<close>

fun outcomes ::
  "(parsed_transaction \<Rightarrow> db \<Rightarrow> (exn + transaction_row option) \<times> db)
     \<Rightarrow> parsed_transaction list \<Rightarrow> db \<Rightarrow> (exn + transaction_row option) list" where
  "outcomes proc [] d = []"
| "outcomes proc (t # ts) d = fst (proc t d) # outcomes proc ts (snd (proc t d))"

fun is_created :: "exn + transaction_row option \<Rightarrow> bool" where
  "is_created (Inr (Some _)) = True"
| "is_created _ = False"

fun is_raised :: "exn + transaction_row option \<Rightarrow> bool" where
  "is_raised (Inl _) = True"
| "is_raised _ = False"

fun is_none :: "exn + transaction_row option \<Rightarrow> bool" where
  "is_none (Inr None) = True"
| "is_none _ = False"

text \<open>Two postings that differ at most in that one has no amount where the other has zero.\<close>

definition zero_or_absent :: "decimal option \<Rightarrow> bool" where
  "zero_or_absent a = (case a of None \<Rightarrow> True | Some z \<Rightarrow> coefficient z = 0)"

definition same_up_to_zero :: "posting \<Rightarrow> posting \<Rightarrow> bool" where
  "same_up_to_zero p q =
     (account p = account q \<and> currency p = currency q
      \<and> (amount p = amount q \<or> (zero_or_absent (amount p) \<and> zero_or_absent (amount q))))"

text \<open>Every posting of a parsed transaction has the currency INR.\<close>

definition inr_postings :: "parsed_transaction \<Rightarrow> bool" where
  "inr_postings t = list_all (\<lambda>p. currency p = ''INR'') (postings t)"

text \<open>The posting row that the importer writes for a posting of transaction \<open>tid\<close>.\<close>

definition row_of :: "nat \<Rightarrow> posting \<Rightarrow> posting_row \<Rightarrow> bool" where
  "row_of tid p r =
     (pm_transaction_id r = tid
      \<and> pm_amount r = (case amount p of Some x \<Rightarrow> x | None \<Rightarrow> Decimal_0_00)
      \<and> pm_currency r = currency p)"

text \<open>File systems with a single entry.\<close>

definition single_file :: "string \<Rightarrow> string list \<Rightarrow> string \<Rightarrow> fs_node" where
  "single_file name lines p = (if p = name then RegularFile lines else Absent)"

definition single_directory :: "string \<Rightarrow> string \<Rightarrow> fs_node" where
  "single_directory name p = (if p = name then Directory else Absent)"

section \<open>Evaluation\<close>

lemmas text_eval =
  Let_def rstrip_def strip_def is_space_def is_digit_def is_word_def newline_def
  rest_of_line_def startswith_def

lemmas parse_eval =
  alias_match_def alias_keyword_form_def alias_bare_form_def parse_aliases_def
  expand_aliases_def digit_or_comma_def digit_value_def digits_to_nat_def parse_amount_def
  date_shape_def date_match_def leap_year_def days_in_month_def strptime_def
  posting_match_def posting_account_only_match_def comment_match_def
  parse_transaction_def close_transaction_def parse_lines_def parse_ledger_file_def
  single_file_def single_directory_def

lemmas hash_eval =
  calculate_hash_def hash_content_def render_posting_def amount_str_def dec_truthy_def
  str_decimal_def zfill_def isoformat_def

lemmas store_eval =
  import_ledger_file_def import_ledger_file_with_def get_or_create_transaction_def
  get_or_create_account_def empty_db_def next_id_def
  py_sum_def dec_add_def dec_neg_def dec_fix_def dec_of_int_def Decimal_0_00_def
  update_account_balances_def update_one_balance_def calculate_account_balance_def

section \<open>Account hierarchy\<close>

lemma split_colon_not_Nil: "split_colon s \<noteq> []"
  by (induction s) (auto split: list.splits)

lemma join_colon_Cons_Cons: "join_colon ((c # p) # ps) = c # join_colon (p # ps)"
  by (cases ps) simp_all

lemma join_split_colon: "join_colon (split_colon s) = s"
proof (induction s)
  case Nil
  show ?case by simp
next
  case (Cons c cs)
  obtain p ps where sp: "split_colon cs = p # ps"
    using split_colon_not_Nil [of cs] by (cases "split_colon cs") auto
  show ?case
  proof (cases "c = CHR '':''")
    case True
    then show ?thesis using Cons sp by simp
  next
    case False
    then show ?thesis using Cons sp by (simp add: join_colon_Cons_Cons)
  qed
qed

lemma join_colon_snoc: "xs \<noteq> [] \<Longrightarrow> join_colon (xs @ [y]) = join_colon xs @ CHR '':'' # y"
  by (induction xs rule: join_colon.induct) simp_all

lemma length_join_colon_take: "length (join_colon (take j xs)) \<le> length (join_colon xs)"
proof (induction xs arbitrary: j rule: rev_induct)
  case Nil
  show ?case by simp
next
  case (snoc y xs)
  show ?case
  proof (cases "j \<le> length xs")
    case True
    have "length (join_colon (take j xs)) \<le> length (join_colon xs)" by (rule snoc.IH)
    also have "\<dots> \<le> length (join_colon (xs @ [y]))"
      by (cases "xs = []") (simp_all add: join_colon_snoc)
    finally show ?thesis using True by simp
  next
    case False
    then show ?thesis by simp
  qed
qed

lemma find_append: "find P (xs @ ys) = (case find P xs of Some a \<Rightarrow> Some a | None \<Rightarrow> find P ys)"
  by (induction xs) auto


lemma foldr_max_base: "foldr max xs (b::nat) = max b (foldr max xs 0)"
  by (induction xs) auto

lemma foldr_max_Suc_upt: "foldr max (map Suc [0..<n]) 0 = n"
proof (induction n)
  case 0
  show ?case by simp
next
  case (Suc n)
  have "foldr max (map Suc [0..<Suc n]) 0 = foldr max (map Suc [0..<n]) (Suc n)"
    by simp
  also have "\<dots> = max (Suc n) (foldr max (map Suc [0..<n]) 0)"
    by (rule foldr_max_base)
  finally show ?case using Suc by simp
qed

lemma next_id_hierarchy: "next_id (map acc_id (map (hierarchy_row parts) [0..<n])) = Suc n"
proof -
  have "acc_id \<circ> hierarchy_row parts = Suc"
    by (auto simp: hierarchy_row_def fun_eq_iff)
  then show ?thesis by (simp add: next_id_def foldr_max_Suc_upt)
qed

lemma find_hierarchy_None:
  "find (\<lambda>a. acc_full_path a = join_colon (seen @ [part]))
        (map (hierarchy_row (seen @ part # rest)) [0..<length seen]) = None"
proof -
  have "acc_full_path (hierarchy_row (seen @ part # rest) k) \<noteq> join_colon (seen @ [part])"
    if k: "k < length seen" for k
  proof -
    have ne: "seen \<noteq> []" using k by auto
    have "acc_full_path (hierarchy_row (seen @ part # rest) k) = join_colon (take (Suc k) seen)"
      using k by (simp add: hierarchy_row_def)
    moreover have "length (join_colon (take (Suc k) seen)) \<le> length (join_colon seen)"
      by (rule length_join_colon_take)
    moreover have "length (join_colon seen) < length (join_colon (seen @ [part]))"
      using ne by (simp add: join_colon_snoc)
    ultimately show ?thesis by auto
  qed
  then show ?thesis by (auto simp: find_None_iff)
qed

lemma create_hierarchy_hit:
  "rest \<noteq> [] \<Longrightarrow> create_hierarchy seen rest parent d = (r, d')
   \<Longrightarrow> r \<noteq> None \<and> find (\<lambda>a. acc_full_path a = join_colon (seen @ rest)) (db_accounts d') = r"
proof (induction rest arbitrary: seen parent d)
  case Nil
  then show ?case by simp
next
  case (Cons part rest)
  let ?path = "join_colon (seen @ [part])"
  show ?case
  proof (cases "find (\<lambda>a. acc_full_path a = ?path) (db_accounts d)")
    case None
    let ?a = "\<lparr>acc_id = next_id (map acc_id (db_accounts d)), acc_name = part,
               acc_full_path = ?path, acc_parent_id = map_option acc_id parent\<rparr>"
    let ?d1 = "d\<lparr>db_accounts := db_accounts d @ [?a]\<rparr>"
    have step: "create_hierarchy (seen @ [part]) rest (Some ?a) ?d1 = (r, d')"
      using Cons.prems(2) None by (simp add: Let_def)
    show ?thesis
    proof (cases "rest = []")
      case True
      then show ?thesis using step None by (auto simp: find_append)
    next
      case False
      from Cons.IH [OF False step] show ?thesis by simp
    qed
  next
    case (Some a)
    have step: "create_hierarchy (seen @ [part]) rest (Some a) d = (r, d')"
      using Cons.prems(2) Some by (simp add: Let_def)
    show ?thesis
    proof (cases "rest = []")
      case True
      with step have "r = Some a" and "d' = d" by simp_all
      then show ?thesis using True Some by simp
    next
      case False
      from Cons.IH [OF False step] show ?thesis by simp
    qed
  qed
qed

lemma get_or_create_account_hit:
  assumes "get_or_create_account p d = (r, d')"
  shows "r \<noteq> None \<and> find (\<lambda>a. acc_full_path a = p) (db_accounts d') = r"
proof (cases "find (\<lambda>a. acc_full_path a = p) (db_accounts d)")
  case None
  then have "create_hierarchy [] (split_colon p) None d = (r, d')"
    using assms by (simp add: get_or_create_account_def)
  from create_hierarchy_hit [OF split_colon_not_Nil this] show ?thesis
    by (simp add: join_split_colon)
next
  case (Some a)
  with assms have "r = Some a" and "d' = d" by (simp_all add: get_or_create_account_def)
  then show ?thesis using Some by simp
qed

lemma create_hierarchy_rows:
  "db_accounts d = map (hierarchy_row (seen @ rest)) [0..<length seen]
   \<Longrightarrow> parent = (if seen = [] then None else Some (hierarchy_row (seen @ rest) (length seen - 1)))
   \<Longrightarrow> create_hierarchy seen rest parent d = (r, d')
   \<Longrightarrow> d' = d\<lparr>db_accounts := map (hierarchy_row (seen @ rest)) [0..<length (seen @ rest)]\<rparr>"
proof (induction rest arbitrary: seen parent d)
  case Nil
  then show ?case by simp
next
  case (Cons part rest)
  let ?parts = "seen @ part # rest"
  let ?path = "join_colon (seen @ [part])"
  have none: "find (\<lambda>a. acc_full_path a = ?path) (db_accounts d) = None"
    using Cons.prems(1) find_hierarchy_None [of seen part rest] by simp
  let ?a = "\<lparr>acc_id = next_id (map acc_id (db_accounts d)), acc_name = part,
             acc_full_path = ?path, acc_parent_id = map_option acc_id parent\<rparr>"
  let ?d1 = "d\<lparr>db_accounts := db_accounts d @ [?a]\<rparr>"
  have step: "create_hierarchy (seen @ [part]) rest (Some ?a) ?d1 = (r, d')"
    using Cons.prems(3) none by (simp add: Let_def)
  have ids: "next_id (map acc_id (db_accounts d)) = Suc (length seen)"
    by (simp only: Cons.prems(1) next_id_hierarchy)
  have a: "?a = hierarchy_row ?parts (length seen)"
    unfolding ids using Cons.prems(2) by (auto simp: hierarchy_row_def)
  have rows: "db_accounts ?d1 = map (hierarchy_row ((seen @ [part]) @ rest)) [0..<length (seen @ [part])]"
    using Cons.prems(1) a by simp
  have par: "Some ?a = (if seen @ [part] = [] then None
                        else Some (hierarchy_row ((seen @ [part]) @ rest) (length (seen @ [part]) - 1)))"
    using a by simp
  from Cons.IH [OF rows par step] show ?case by simp
qed

text \<open>
  Claim C9. \<^verbatim>\<open>get_or_create_account\<close> is idempotent: a second call with the same path
  returns the same account row and leaves the store as it is, and the row returned has
  that path. In an empty store, a path of \<open>n\<close> segments creates exactly \<open>n\<close> account
  rows, one for each prefix of the path in order of length, and the parent of each row
  but the first is the row of the next shorter prefix.
\<close>

theorem get_or_create_account_idempotent:
  "get_or_create_account p (snd (get_or_create_account p d)) = get_or_create_account p d
   \<and> (\<exists>a. fst (get_or_create_account p d) = Some a \<and> acc_full_path a = p)
   \<and> snd (get_or_create_account p empty_db)
       = empty_db\<lparr>db_accounts :=
           map (hierarchy_row (split_colon p)) [0..<length (split_colon p)]\<rparr>
   \<and> (\<forall>k. 0 < k \<and> k < length (split_colon p) \<longrightarrow>
          acc_parent_id (hierarchy_row (split_colon p) k)
            = Some (acc_id (hierarchy_row (split_colon p) (k - 1)))
          \<and> acc_full_path (hierarchy_row (split_colon p) (k - 1))
            = join_colon (take k (split_colon p)))"
proof (intro conjI allI impI)
  obtain r d' where g: "get_or_create_account p d = (r, d')"
    by (cases "get_or_create_account p d")
  from get_or_create_account_hit [OF g] obtain a where
    a: "r = Some a" and f: "find (\<lambda>a. acc_full_path a = p) (db_accounts d') = Some a"
    by auto
  from f have "acc_full_path a = p" by (auto simp: find_Some_iff)
  then show "\<exists>a. fst (get_or_create_account p d) = Some a \<and> acc_full_path a = p"
    using a g by simp
  have "get_or_create_account p d' = (r, d')"
    using a f by (simp add: get_or_create_account_def)
  then show "get_or_create_account p (snd (get_or_create_account p d)) = get_or_create_account p d"
    using g by simp
next
  obtain r d' where g: "get_or_create_account p empty_db = (r, d')"
    by (cases "get_or_create_account p empty_db")
  then have c: "create_hierarchy [] (split_colon p) None empty_db = (r, d')"
    by (simp add: get_or_create_account_def empty_db_def)
  have "d' = empty_db\<lparr>db_accounts :=
          map (hierarchy_row ([] @ split_colon p)) [0..<length ([] @ split_colon p)]\<rparr>"
    by (rule create_hierarchy_rows [OF _ _ c]) (simp_all add: empty_db_def)
  then show "snd (get_or_create_account p empty_db)
       = empty_db\<lparr>db_accounts :=
           map (hierarchy_row (split_colon p)) [0..<length (split_colon p)]\<rparr>"
    using g by simp
next
  fix k
  assume k: "0 < k \<and> k < length (split_colon p)"
  then show "acc_parent_id (hierarchy_row (split_colon p) k)
            = Some (acc_id (hierarchy_row (split_colon p) (k - 1)))"
    by (simp add: hierarchy_row_def)
  from k show "acc_full_path (hierarchy_row (split_colon p) (k - 1))
            = join_colon (take k (split_colon p))"
    by (simp add: hierarchy_row_def)
qed

text \<open>
  The claim at the path \<^verbatim>\<open>Assets:Banking:Checking\<close>: three rows in the empty store, the
  second call returns what the first returned, and the parent of the third row is the
  second.
\<close>

theorem get_or_create_account_idempotent_witness:
  "get_or_create_account ''Assets:Banking:Checking'' empty_db
     = (Some \<lparr>acc_id = 3, acc_name = ''Checking'', acc_full_path = ''Assets:Banking:Checking'',
              acc_parent_id = Some 2\<rparr>,
        empty_db\<lparr>db_accounts :=
          [\<lparr>acc_id = 1, acc_name = ''Assets'', acc_full_path = ''Assets'', acc_parent_id = None\<rparr>,
           \<lparr>acc_id = 2, acc_name = ''Banking'', acc_full_path = ''Assets:Banking'',
             acc_parent_id = Some 1\<rparr>,
           \<lparr>acc_id = 3, acc_name = ''Checking'', acc_full_path = ''Assets:Banking:Checking'',
             acc_parent_id = Some 2\<rparr>]\<rparr>)
   \<and> get_or_create_account ''Assets:Banking:Checking''
        (snd (get_or_create_account ''Assets:Banking:Checking'' empty_db))
     = get_or_create_account ''Assets:Banking:Checking'' empty_db
   \<and> (0::nat) < 2 \<and> 2 < length (split_colon ''Assets:Banking:Checking'')
   \<and> acc_parent_id (hierarchy_row (split_colon ''Assets:Banking:Checking'') 2)
     = Some (acc_id (hierarchy_row (split_colon ''Assets:Banking:Checking'') (2 - 1)))"
proof -
  let ?p = "''Assets:Banking:Checking''"
  have ev: "get_or_create_account ?p empty_db
     = (Some \<lparr>acc_id = 3, acc_name = ''Checking'', acc_full_path = ''Assets:Banking:Checking'',
              acc_parent_id = Some 2\<rparr>,
        empty_db\<lparr>db_accounts :=
          [\<lparr>acc_id = 1, acc_name = ''Assets'', acc_full_path = ''Assets'', acc_parent_id = None\<rparr>,
           \<lparr>acc_id = 2, acc_name = ''Banking'', acc_full_path = ''Assets:Banking'',
             acc_parent_id = Some 1\<rparr>,
           \<lparr>acc_id = 3, acc_name = ''Checking'', acc_full_path = ''Assets:Banking:Checking'',
             acc_parent_id = Some 2\<rparr>]\<rparr>)"
    by (simp add: get_or_create_account_def empty_db_def next_id_def Let_def)
  have len: "(0::nat) < 2 \<and> 2 < length (split_colon ?p)" by simp
  note inst = get_or_create_account_idempotent [of ?p empty_db]
  from inst have 1: "get_or_create_account ?p (snd (get_or_create_account ?p empty_db))
     = get_or_create_account ?p empty_db" by (rule conjunct1)
  from inst len have 2: "acc_parent_id (hierarchy_row (split_colon ?p) 2)
     = Some (acc_id (hierarchy_row (split_colon ?p) (2 - 1)))" by blast
  show ?thesis using ev 1 2 len by (intro conjI) simp_all
qed

section \<open>Behaviour at concrete ledger files\<close>

text \<open>
  Claim C1. A parsed transaction with more than one posting without an amount is to
  leave no transaction row and no posting rows, and to count as skipped once. The
  importer adds and flushes the transaction row before it looks at the postings, and
  returns without taking the row back: importing a file with one such transaction into
  the empty store counts it as skipped and writes no posting, but the transaction row is
  in the store.
\<close>

theorem ambiguous_transaction_row_persisted:
  "import_ledger_file H
     (single_file ''ledger'' [''2024/01/01 Transfer'', ''    Assets:Bank'', ''    Assets:Cash''])
     (Some ''ledger'') True empty_db
   = Inr (\<lparr>imported = 0, skipped = 1, total_parsed = 1\<rparr>,
          \<lparr>db_accounts = [],
           db_transactions =
             [\<lparr>txn_id = 1, txn_date = \<lparr>year = 2024, month = 1, day = 1\<rparr>,
               txn_payee = ''Transfer'',
               txn_hash = H ''2024-01-01T00:00:00|Transfer|Assets:Bank::INR|Assets:Cash::INR|''\<rparr>],
           db_postings = [], db_balances = []\<rparr>)"
  by (simp add: text_eval parse_eval hash_eval store_eval)

text \<open>
  Claim C3. The cached balance of every account is to be the raw sum of the amounts of
  its postings. \<^verbatim>\<open>update_account_balances\<close> stores what
  \<^verbatim>\<open>calculate_account_balance\<close> returns, which is the balance after the change of sign:
  after this import the account \<^verbatim>\<open>Income:Salary\<close> (row 4) has one posting of -50000.00
  and a cached balance of 50000.00.
\<close>

theorem cached_balance_is_display_balance:
  "import_ledger_file H
     (single_file ''ledger''
        [''2024/01/01 Salary'', ''    Assets:Bank  50000.00'', ''    Income:Salary''])
     (Some ''ledger'') True empty_db
   = Inr (\<lparr>imported = 1, skipped = 0, total_parsed = 1\<rparr>,
          \<lparr>db_accounts =
             [\<lparr>acc_id = 1, acc_name = ''Assets'', acc_full_path = ''Assets'', acc_parent_id = None\<rparr>,
              \<lparr>acc_id = 2, acc_name = ''Bank'', acc_full_path = ''Assets:Bank'',
                acc_parent_id = Some 1\<rparr>,
              \<lparr>acc_id = 3, acc_name = ''Income'', acc_full_path = ''Income'', acc_parent_id = None\<rparr>,
              \<lparr>acc_id = 4, acc_name = ''Salary'', acc_full_path = ''Income:Salary'',
                acc_parent_id = Some 3\<rparr>],
           db_transactions =
             [\<lparr>txn_id = 1, txn_date = \<lparr>year = 2024, month = 1, day = 1\<rparr>, txn_payee = ''Salary'',
               txn_hash =
                 H ''2024-01-01T00:00:00|Salary|Assets:Bank:50000.00:INR|Income:Salary::INR|''\<rparr>],
           db_postings =
             [\<lparr>pm_transaction_id = 1, pm_account_id = 2,
               pm_amount = \<lparr>coefficient = 5000000, places = 2\<rparr>, pm_currency = ''INR''\<rparr>,
              \<lparr>pm_transaction_id = 1, pm_account_id = 4,
               pm_amount = \<lparr>coefficient = - 5000000, places = 2\<rparr>, pm_currency = ''INR''\<rparr>],
           db_balances =
             [\<lparr>ab_account_id = 1, ab_balance = \<lparr>coefficient = 0, places = 2\<rparr>,
               ab_currency = ''INR''\<rparr>,
              \<lparr>ab_account_id = 2, ab_balance = \<lparr>coefficient = 5000000, places = 2\<rparr>,
               ab_currency = ''INR''\<rparr>,
              \<lparr>ab_account_id = 3, ab_balance = \<lparr>coefficient = 0, places = 2\<rparr>,
               ab_currency = ''INR''\<rparr>,
              \<lparr>ab_account_id = 4, ab_balance = \<lparr>coefficient = 5000000, places = 2\<rparr>,
               ab_currency = ''INR''\<rparr>]\<rparr>)"
  by (simp add: text_eval parse_eval hash_eval store_eval)

text \<open>
  Claim C6. Two transactions with the same date, payee and postings, in whatever order,
  are to have the same hash. The postings are sorted by account only, and the sort is
  stable: two postings of one account keep the order of the file. The two files below
  differ in the order of the two postings of \<^verbatim>\<open>Expenses:Food\<close>; the texts that are
  digested differ, and the two hashes are equal only if the digest takes the same value
  on these two texts.
\<close>

theorem hash_content_depends_on_order:
  "parse_lines [''2024/01/01 Shop'', ''    Expenses:Food  100.00'',
                ''    Expenses:Food  200.00'', ''    Assets:Cash'']
     = Inr [\<lparr>date = \<lparr>year = 2024, month = 1, day = 1\<rparr>, payee = ''Shop'',
             postings =
               [\<lparr>account = ''Expenses:Food'', amount = Some \<lparr>coefficient = 10000, places = 2\<rparr>,
                  currency = ''INR''\<rparr>,
                \<lparr>account = ''Expenses:Food'', amount = Some \<lparr>coefficient = 20000, places = 2\<rparr>,
                  currency = ''INR''\<rparr>,
                \<lparr>account = ''Assets:Cash'', amount = None, currency = ''INR''\<rparr>]\<rparr>]
   \<and> parse_lines [''2024/01/01 Shop'', ''    Expenses:Food  200.00'',
                  ''    Expenses:Food  100.00'', ''    Assets:Cash'']
     = Inr [\<lparr>date = \<lparr>year = 2024, month = 1, day = 1\<rparr>, payee = ''Shop'',
             postings =
               [\<lparr>account = ''Expenses:Food'', amount = Some \<lparr>coefficient = 20000, places = 2\<rparr>,
                  currency = ''INR''\<rparr>,
                \<lparr>account = ''Expenses:Food'', amount = Some \<lparr>coefficient = 10000, places = 2\<rparr>,
                  currency = ''INR''\<rparr>,
                \<lparr>account = ''Assets:Cash'', amount = None, currency = ''INR''\<rparr>]\<rparr>]
   \<and> hash_content
        \<lparr>date = \<lparr>year = 2024, month = 1, day = 1\<rparr>, payee = ''Shop'',
         postings =
           [\<lparr>account = ''Expenses:Food'', amount = Some \<lparr>coefficient = 10000, places = 2\<rparr>,
              currency = ''INR''\<rparr>,
            \<lparr>account = ''Expenses:Food'', amount = Some \<lparr>coefficient = 20000, places = 2\<rparr>,
              currency = ''INR''\<rparr>,
            \<lparr>account = ''Assets:Cash'', amount = None, currency = ''INR''\<rparr>]\<rparr>
       = ''2024-01-01T00:00:00|Shop|Assets:Cash::INR|Expenses:Food:100.00:INR|Expenses:Food:200.00:INR|''
   \<and> hash_content
        \<lparr>date = \<lparr>year = 2024, month = 1, day = 1\<rparr>, payee = ''Shop'',
         postings =
           [\<lparr>account = ''Expenses:Food'', amount = Some \<lparr>coefficient = 20000, places = 2\<rparr>,
              currency = ''INR''\<rparr>,
            \<lparr>account = ''Expenses:Food'', amount = Some \<lparr>coefficient = 10000, places = 2\<rparr>,
              currency = ''INR''\<rparr>,
            \<lparr>account = ''Assets:Cash'', amount = None, currency = ''INR''\<rparr>]\<rparr>
       = ''2024-01-01T00:00:00|Shop|Assets:Cash::INR|Expenses:Food:200.00:INR|Expenses:Food:100.00:INR|''
   \<and> (calculate_hash H
        \<lparr>date = \<lparr>year = 2024, month = 1, day = 1\<rparr>, payee = ''Shop'',
         postings =
           [\<lparr>account = ''Expenses:Food'', amount = Some \<lparr>coefficient = 10000, places = 2\<rparr>,
              currency = ''INR''\<rparr>,
            \<lparr>account = ''Expenses:Food'', amount = Some \<lparr>coefficient = 20000, places = 2\<rparr>,
              currency = ''INR''\<rparr>,
            \<lparr>account = ''Assets:Cash'', amount = None, currency = ''INR''\<rparr>]\<rparr>
       = calculate_hash H
        \<lparr>date = \<lparr>year = 2024, month = 1, day = 1\<rparr>, payee = ''Shop'',
         postings =
           [\<lparr>account = ''Expenses:Food'', amount = Some \<lparr>coefficient = 20000, places = 2\<rparr>,
              currency = ''INR''\<rparr>,
            \<lparr>account = ''Expenses:Food'', amount = Some \<lparr>coefficient = 10000, places = 2\<rparr>,
              currency = ''INR''\<rparr>,
            \<lparr>account = ''Assets:Cash'', amount = None, currency = ''INR''\<rparr>]\<rparr>)
     = (H ''2024-01-01T00:00:00|Shop|Assets:Cash::INR|Expenses:Food:100.00:INR|Expenses:Food:200.00:INR|''
        = H ''2024-01-01T00:00:00|Shop|Assets:Cash::INR|Expenses:Food:200.00:INR|Expenses:Food:100.00:INR|'')
   \<and> ''2024-01-01T00:00:00|Shop|Assets:Cash::INR|Expenses:Food:100.00:INR|Expenses:Food:200.00:INR|''
     \<noteq> ''2024-01-01T00:00:00|Shop|Assets:Cash::INR|Expenses:Food:200.00:INR|Expenses:Food:100.00:INR|''"
  by (simp add: text_eval parse_eval hash_eval)

section \<open>What the importer leaves untouched\<close>

lemma create_hierarchy_frame:
  "create_hierarchy seen rest parent d = (r, d')
   \<Longrightarrow> db_transactions d' = db_transactions d \<and> db_postings d' = db_postings d
       \<and> db_balances d' = db_balances d"
proof (induction rest arbitrary: seen parent d)
  case Nil
  then show ?case by simp
next
  case (Cons part rest)
  show ?case
  proof (cases "find (\<lambda>a. acc_full_path a = join_colon (seen @ [part])) (db_accounts d)")
    case None
    with Cons.prems have
      "create_hierarchy (seen @ [part]) rest
         (Some \<lparr>acc_id = next_id (map acc_id (db_accounts d)), acc_name = part,
                 acc_full_path = join_colon (seen @ [part]),
                 acc_parent_id = map_option acc_id parent\<rparr>)
         (d\<lparr>db_accounts := db_accounts d @
               [\<lparr>acc_id = next_id (map acc_id (db_accounts d)), acc_name = part,
                 acc_full_path = join_colon (seen @ [part]),
                 acc_parent_id = map_option acc_id parent\<rparr>]\<rparr>) = (r, d')"
      by (simp add: Let_def)
    from Cons.IH [OF this] show ?thesis by simp
  next
    case (Some a)
    with Cons.prems have "create_hierarchy (seen @ [part]) rest (Some a) d = (r, d')"
      by (simp add: Let_def)
    from Cons.IH [OF this] show ?thesis .
  qed
qed

lemma get_or_create_account_frame:
  "get_or_create_account p d = (r, d')
   \<Longrightarrow> db_transactions d' = db_transactions d \<and> db_postings d' = db_postings d
       \<and> db_balances d' = db_balances d"
  by (auto simp: get_or_create_account_def split: option.splits dest: create_hierarchy_frame)

lemma create_postings_transactions:
  "create_postings tid ps d = (e, d') \<Longrightarrow> db_transactions d' = db_transactions d"
proof (induction ps arbitrary: d)
  case Nil
  then show ?case by simp
next
  case (Cons p ps)
  obtain r d1 where g: "get_or_create_account (account p) d = (r, d1)"
    by (cases "get_or_create_account (account p) d")
  from get_or_create_account_frame [OF g] have f: "db_transactions d1 = db_transactions d"
    by simp
  show ?case
  proof (cases r)
    case None
    with Cons.prems g f show ?thesis by simp
  next
    case (Some a)
    with Cons.prems g have
      "create_postings tid ps
         (d1\<lparr>db_postings := db_postings d1 @
               [\<lparr>pm_transaction_id = tid, pm_account_id = acc_id a,
                 pm_amount = (case amount p of Some x \<Rightarrow> x | None \<Rightarrow> Decimal_0_00),
                 pm_currency = currency p\<rparr>]\<rparr>) = (e, d')"
      by simp
    from Cons.IH [OF this] f show ?thesis by simp
  qed
qed

lemma get_or_create_transaction_known:
  "find (\<lambda>x. txn_hash x = calculate_hash H t) (db_transactions d) \<noteq> None
   \<Longrightarrow> get_or_create_transaction H t d = (Inr None, d)"
  by (auto simp: get_or_create_transaction_def)

lemma get_or_create_transaction_transactions:
  "get_or_create_transaction H t d = (r, d')
   \<Longrightarrow> db_transactions d' = db_transactions d
       \<or> (\<exists>row. txn_hash row = calculate_hash H t \<and> db_transactions d' = db_transactions d @ [row])"
  unfolding get_or_create_transaction_def Let_def
  by (auto split: option.splits if_splits prod.splits dest!: create_postings_transactions)

lemma get_or_create_transaction_records_hash:
  assumes "get_or_create_transaction H t d = (r, d')"
  shows "find (\<lambda>x. txn_hash x = calculate_hash H t) (db_transactions d') \<noteq> None"
proof (cases "find (\<lambda>x. txn_hash x = calculate_hash H t) (db_transactions d)")
  case None
  with assms get_or_create_transaction_transactions [OF assms] show ?thesis
    by (auto simp: find_None_iff get_or_create_transaction_def Let_def
             split: if_splits prod.splits option.splits dest!: create_postings_transactions)
next
  case (Some a)
  then have "get_or_create_transaction H t d = (Inr None, d)"
    by (simp add: get_or_create_transaction_known)
  with assms Some show ?thesis by simp
qed

section \<open>Zero amounts in the hash\<close>

lemma render_posting_same_up_to_zero:
  "same_up_to_zero p q \<Longrightarrow> render_posting p = render_posting q"
  by (auto simp: same_up_to_zero_def zero_or_absent_def render_posting_def amount_str_def
                 dec_truthy_def split: option.splits)

lemma insort_key_related:
  "list_all2 R xs ys \<Longrightarrow> R x y \<Longrightarrow> (\<And>a b. R a b \<Longrightarrow> f a = f b)
   \<Longrightarrow> list_all2 R (insort_key f x xs) (insort_key f y ys)"
proof (induction rule: list_all2_induct)
  case Nil
  then show ?case by simp
next
  case (Cons a as b bs)
  have "f a = f b" and "f x = f y" using Cons by auto
  then show ?case using Cons by auto
qed

lemma sort_key_related:
  "list_all2 R xs ys \<Longrightarrow> (\<And>a b. R a b \<Longrightarrow> f a = f b)
   \<Longrightarrow> list_all2 R (sort_key f xs) (sort_key f ys)"
proof (induction rule: list_all2_induct)
  case Nil
  then show ?case by simp
next
  case (Cons a as b bs)
  then show ?case by (simp add: insort_key_related)
qed

lemma hash_content_same_up_to_zero:
  assumes "date t1 = date t2" and "payee t1 = payee t2"
    and "list_all2 same_up_to_zero (postings t1) (postings t2)"
  shows "hash_content t1 = hash_content t2"
proof -
  have "list_all2 same_up_to_zero (sort_key account (postings t1)) (sort_key account (postings t2))"
    using assms(3) by (rule sort_key_related) (simp add: same_up_to_zero_def)
  then have "map render_posting (sort_key account (postings t1))
             = map render_posting (sort_key account (postings t2))"
    by (induction rule: list_all2_induct) (simp_all add: render_posting_same_up_to_zero)
  then show ?thesis using assms(1,2) by (simp add: hash_content_def)
qed

text \<open>
  Claim C10. In \<^verbatim>\<open>calculate_hash\<close> a posting whose amount is zero is rendered like a
  posting without an amount. So two parsed transactions with the same date and payee,
  whose postings agree in account and currency and differ at most in that an amount is
  absent in one and zero in the other, have the same hash; and once one of them has gone
  through \<^verbatim>\<open>get_or_create_transaction\<close>, the other is taken for a duplicate: the call
  returns \<^verbatim>\<open>None\<close> and changes nothing.
\<close>

theorem zero_amount_same_hash:
  assumes "date t1 = date t2" and "payee t1 = payee t2"
    and "list_all2 same_up_to_zero (postings t1) (postings t2)"
  shows "calculate_hash H t1 = calculate_hash H t2
         \<and> get_or_create_transaction H t2 (snd (get_or_create_transaction H t1 d))
             = (Inr None, snd (get_or_create_transaction H t1 d))"
proof -
  have h: "calculate_hash H t1 = calculate_hash H t2"
    using hash_content_same_up_to_zero [OF assms] by (simp add: calculate_hash_def)
  obtain r d' where g: "get_or_create_transaction H t1 d = (r, d')"
    by (cases "get_or_create_transaction H t1 d")
  from get_or_create_transaction_records_hash [OF g]
  have "find (\<lambda>x. txn_hash x = calculate_hash H t2) (db_transactions d') \<noteq> None"
    using h by simp
  then have "get_or_create_transaction H t2 d' = (Inr None, d')"
    by (rule get_or_create_transaction_known)
  then show ?thesis using h g by simp
qed

text \<open>
  The claim at a transaction with an explicit \<^verbatim>\<open>0.00\<close> on \<^verbatim>\<open>Assets:Cash\<close> and the same
  transaction without that amount, for every digest and from the empty store.
\<close>

theorem zero_amount_same_hash_witness:
  "\<forall>H.
     list_all2 same_up_to_zero
       [\<lparr>account = ''Expenses:Food'', amount = Some \<lparr>coefficient = 10000, places = 2\<rparr>,
          currency = ''INR''\<rparr>,
        \<lparr>account = ''Assets:Cash'', amount = Some \<lparr>coefficient = 0, places = 2\<rparr>,
          currency = ''INR''\<rparr>]
       [\<lparr>account = ''Expenses:Food'', amount = Some \<lparr>coefficient = 10000, places = 2\<rparr>,
          currency = ''INR''\<rparr>,
        \<lparr>account = ''Assets:Cash'', amount = None, currency = ''INR''\<rparr>]
     \<and> calculate_hash H
         \<lparr>date = \<lparr>year = 2024, month = 1, day = 1\<rparr>, payee = ''Shop'',
          postings =
            [\<lparr>account = ''Expenses:Food'', amount = Some \<lparr>coefficient = 10000, places = 2\<rparr>,
               currency = ''INR''\<rparr>,
             \<lparr>account = ''Assets:Cash'', amount = Some \<lparr>coefficient = 0, places = 2\<rparr>,
               currency = ''INR''\<rparr>]\<rparr>
       = calculate_hash H
         \<lparr>date = \<lparr>year = 2024, month = 1, day = 1\<rparr>, payee = ''Shop'',
          postings =
            [\<lparr>account = ''Expenses:Food'', amount = Some \<lparr>coefficient = 10000, places = 2\<rparr>,
               currency = ''INR''\<rparr>,
             \<lparr>account = ''Assets:Cash'', amount = None, currency = ''INR''\<rparr>]\<rparr>
     \<and> fst (get_or_create_transaction H
         \<lparr>date = \<lparr>year = 2024, month = 1, day = 1\<rparr>, payee = ''Shop'',
          postings =
            [\<lparr>account = ''Expenses:Food'', amount = Some \<lparr>coefficient = 10000, places = 2\<rparr>,
               currency = ''INR''\<rparr>,
             \<lparr>account = ''Assets:Cash'', amount = None, currency = ''INR''\<rparr>]\<rparr>
         (snd (get_or_create_transaction H
           \<lparr>date = \<lparr>year = 2024, month = 1, day = 1\<rparr>, payee = ''Shop'',
            postings =
              [\<lparr>account = ''Expenses:Food'', amount = Some \<lparr>coefficient = 10000, places = 2\<rparr>,
                 currency = ''INR''\<rparr>,
               \<lparr>account = ''Assets:Cash'', amount = Some \<lparr>coefficient = 0, places = 2\<rparr>,
                 currency = ''INR''\<rparr>]\<rparr>
           empty_db)))
       = Inr None"
proof
  fix H
  let ?ps1 = "[\<lparr>account = ''Expenses:Food'', amount = Some \<lparr>coefficient = 10000, places = 2\<rparr>,
                  currency = ''INR''\<rparr>,
               \<lparr>account = ''Assets:Cash'', amount = Some \<lparr>coefficient = 0, places = 2\<rparr>,
                  currency = ''INR''\<rparr>]"
  let ?ps2 = "[\<lparr>account = ''Expenses:Food'', amount = Some \<lparr>coefficient = 10000, places = 2\<rparr>,
                  currency = ''INR''\<rparr>,
               \<lparr>account = ''Assets:Cash'', amount = None, currency = ''INR''\<rparr>]"
  let ?t1 = "\<lparr>date = \<lparr>year = 2024, month = 1, day = 1\<rparr>, payee = ''Shop'', postings = ?ps1\<rparr>"
  let ?t2 = "\<lparr>date = \<lparr>year = 2024, month = 1, day = 1\<rparr>, payee = ''Shop'', postings = ?ps2\<rparr>"
  have rel: "list_all2 same_up_to_zero ?ps1 ?ps2"
    by (simp add: same_up_to_zero_def zero_or_absent_def)
  have "date ?t1 = date ?t2" and "payee ?t1 = payee ?t2"
    and "list_all2 same_up_to_zero (postings ?t1) (postings ?t2)"
    using rel by simp_all
  from zero_amount_same_hash [OF this, of H empty_db] rel
  show "list_all2 same_up_to_zero ?ps1 ?ps2
        \<and> calculate_hash H ?t1 = calculate_hash H ?t2
        \<and> fst (get_or_create_transaction H ?t2 (snd (get_or_create_transaction H ?t1 empty_db)))
            = Inr None"
    by simp
qed

section \<open>The sign of the displayed balance\<close>

lemma startswith_iff: "startswith s pre \<longleftrightarrow> (\<exists>r. s = pre @ r)"
proof
  assume "startswith s pre"
  then have "s = pre @ drop (length pre) s"
    by (metis append_take_drop_id startswith_def)
  then show "\<exists>r. s = pre @ r" ..
next
  assume "\<exists>r. s = pre @ r"
  then show "startswith s pre" by (auto simp: startswith_def)
qed

lemma dec_neg_zero: "dec_neg Decimal_0_00 = Decimal_0_00"
  by (simp add: dec_neg_def dec_fix_def Decimal_0_00_def)

text \<open>
  Claim C5, as amended. The balance that \<^verbatim>\<open>calculate_account_balance\<close> returns for an
  account is its raw balance, negated exactly when the full path of the account starts,
  as a string, with \<^verbatim>\<open>Income\<close>, \<^verbatim>\<open>Liabilities\<close> or \<^verbatim>\<open>Equity\<close> (\<open>startswith_iff\<close>
  says what \<open>startswith\<close> tests). The test is on the whole path and not a comparison of
  the first segment.
\<close>

theorem display_balance_by_path_prefix:
  assumes "find (\<lambda>a. acc_id a = account_id) (db_accounts d) = Some acct"
  shows "fst (calculate_account_balance d account_id)
         = (if sign_flipped (acc_full_path acct) then dec_neg (raw_balance d account_id)
            else raw_balance d account_id)"
proof -
  have excl: "\<not> sign_flipped p" if "startswith p ''Assets'' \<or> startswith p ''Expenses''" for p
    using that by (auto simp: startswith_iff sign_flipped_def)
  have flip: "sign_flipped p \<longleftrightarrow>
              startswith p ''Income'' \<or> startswith p ''Liabilities'' \<or> startswith p ''Equity''" for p
    by (simp add: sign_flipped_def)
  show ?thesis
  proof (cases "filter (\<lambda>p. pm_account_id p = account_id) (db_postings d)")
    case Nil
    then show ?thesis using assms
      by (simp add: calculate_account_balance_def raw_balance_def dec_neg_zero)
  next
    case (Cons p0 ps)
    then show ?thesis using assms excl [of "acc_full_path acct"] flip [of "acc_full_path acct"]
      by (auto simp: calculate_account_balance_def raw_balance_def Let_def)
  qed
qed

text \<open>The amended claim at an account \<^verbatim>\<open>Income:Salary\<close> with one posting of -500.00.\<close>

theorem display_balance_by_path_prefix_witness:
  "find (\<lambda>a. acc_id a = 2)
     (db_accounts
        \<lparr>db_accounts =
           [\<lparr>acc_id = 1, acc_name = ''Income'', acc_full_path = ''Income'', acc_parent_id = None\<rparr>,
            \<lparr>acc_id = 2, acc_name = ''Salary'', acc_full_path = ''Income:Salary'',
              acc_parent_id = Some 1\<rparr>],
         db_transactions = [],
         db_postings =
           [\<lparr>pm_transaction_id = 1, pm_account_id = 2,
             pm_amount = \<lparr>coefficient = - 50000, places = 2\<rparr>, pm_currency = ''INR''\<rparr>],
         db_balances = []\<rparr>)
     = Some \<lparr>acc_id = 2, acc_name = ''Salary'', acc_full_path = ''Income:Salary'',
             acc_parent_id = Some 1\<rparr>
   \<and> sign_flipped ''Income:Salary''
   \<and> fst (calculate_account_balance
        \<lparr>db_accounts =
           [\<lparr>acc_id = 1, acc_name = ''Income'', acc_full_path = ''Income'', acc_parent_id = None\<rparr>,
            \<lparr>acc_id = 2, acc_name = ''Salary'', acc_full_path = ''Income:Salary'',
              acc_parent_id = Some 1\<rparr>],
         db_transactions = [],
         db_postings =
           [\<lparr>pm_transaction_id = 1, pm_account_id = 2,
             pm_amount = \<lparr>coefficient = - 50000, places = 2\<rparr>, pm_currency = ''INR''\<rparr>],
         db_balances = []\<rparr> 2)
     = \<lparr>coefficient = 50000, places = 2\<rparr>"
proof -
  let ?d = "\<lparr>db_accounts =
           [\<lparr>acc_id = 1, acc_name = ''Income'', acc_full_path = ''Income'', acc_parent_id = None\<rparr>,
            \<lparr>acc_id = 2, acc_name = ''Salary'', acc_full_path = ''Income:Salary'',
              acc_parent_id = Some 1\<rparr>],
         db_transactions = [],
         db_postings =
           [\<lparr>pm_transaction_id = 1, pm_account_id = 2,
             pm_amount = \<lparr>coefficient = - 50000, places = 2\<rparr>, pm_currency = ''INR''\<rparr>],
         db_balances = []\<rparr>"
  let ?a = "\<lparr>acc_id = 2, acc_name = ''Salary'', acc_full_path = ''Income:Salary'',
             acc_parent_id = Some 1\<rparr>"
  have f: "find (\<lambda>a. acc_id a = 2) (db_accounts ?d) = Some ?a" by simp
  have fl: "sign_flipped ''Income:Salary''" by (simp add: sign_flipped_def startswith_def)
  have raw: "raw_balance ?d 2 = \<lparr>coefficient = - 50000, places = 2\<rparr>"
    by (simp add: raw_balance_def py_sum_def dec_add_def dec_fix_def dec_of_int_def)
  from display_balance_by_path_prefix [OF f] fl raw
  have "fst (calculate_account_balance ?d 2) = \<lparr>coefficient = 50000, places = 2\<rparr>"
    by (simp add: dec_neg_def dec_fix_def)
  then show ?thesis using f fl by simp
qed

text \<open>
  Claim C5 as stated says that an account whose first segment only starts with one of
  the names, such as \<^verbatim>\<open>Incomes\<close>, keeps the raw balance. The first segment of
  \<^verbatim>\<open>Incomes:Misc\<close> is \<^verbatim>\<open>Incomes\<close>, its raw balance here is -500.00, and the balance
  returned is 500.00.
\<close>

theorem incomes_account_is_negated:
  "split_colon ''Incomes:Misc'' = [''Incomes'', ''Misc'']
   \<and> raw_balance
        \<lparr>db_accounts =
           [\<lparr>acc_id = 1, acc_name = ''Incomes'', acc_full_path = ''Incomes'', acc_parent_id = None\<rparr>,
            \<lparr>acc_id = 2, acc_name = ''Misc'', acc_full_path = ''Incomes:Misc'',
              acc_parent_id = Some 1\<rparr>],
         db_transactions = [],
         db_postings =
           [\<lparr>pm_transaction_id = 1, pm_account_id = 2,
             pm_amount = \<lparr>coefficient = - 50000, places = 2\<rparr>, pm_currency = ''INR''\<rparr>],
         db_balances = []\<rparr> 2
     = \<lparr>coefficient = - 50000, places = 2\<rparr>
   \<and> calculate_account_balance
        \<lparr>db_accounts =
           [\<lparr>acc_id = 1, acc_name = ''Incomes'', acc_full_path = ''Incomes'', acc_parent_id = None\<rparr>,
            \<lparr>acc_id = 2, acc_name = ''Misc'', acc_full_path = ''Incomes:Misc'',
              acc_parent_id = Some 1\<rparr>],
         db_transactions = [],
         db_postings =
           [\<lparr>pm_transaction_id = 1, pm_account_id = 2,
             pm_amount = \<lparr>coefficient = - 50000, places = 2\<rparr>, pm_currency = ''INR''\<rparr>],
         db_balances = []\<rparr> 2
     = (\<lparr>coefficient = 50000, places = 2\<rparr>, ''INR'')"
  by (simp add: raw_balance_def calculate_account_balance_def startswith_def py_sum_def
                dec_add_def dec_of_int_def dec_neg_def dec_fix_def Let_def)

section \<open>Alias directives\<close>

lemma space_not_word: "is_space c \<Longrightarrow> \<not> is_word c"
  by (auto simp: is_space_def is_word_def is_digit_def)

lemma strip_Nil_all_space: "strip s = [] \<Longrightarrow> \<forall>c\<in>set s. is_space c"
proof -
  assume "strip s = []"
  then have all: "\<forall>c\<in>set (dropWhile is_space (rev s)). is_space c"
    by (simp add: strip_def rstrip_def)
  have "dropWhile is_space (rev s) = []"
  proof (rule ccontr)
    assume ne: "dropWhile is_space (rev s) \<noteq> []"
    then have "\<not> is_space (hd (dropWhile is_space (rev s)))" by (rule hd_dropWhile)
    moreover have "hd (dropWhile is_space (rev s)) \<in> set (dropWhile is_space (rev s))"
      using ne by simp
    ultimately show False using all by blast
  qed
  then show ?thesis by simp
qed

lemma blank_no_alias: "strip line = [] \<Longrightarrow> alias_match line = None"
proof -
  assume "strip line = []"
  then have sp: "\<forall>c\<in>set line. is_space c" by (rule strip_Nil_all_space)
  have tw: "takeWhile is_word line = []"
    using sp by (cases line) (auto dest: space_not_word)
  have "take 5 line \<noteq> ''alias''"
  proof
    assume a: "take 5 line = ''alias''"
    then obtain c cs where "line = c # cs" by (cases line) auto
    with a have "c = CHR ''a''" by simp
    moreover have "is_space c" using sp \<open>line = c # cs\<close> by simp
    ultimately show False by (simp add: is_space_def)
  qed
  then show ?thesis using tw
    by (simp add: alias_match_def alias_keyword_form_def alias_bare_form_def Let_def)
qed

lemma assign_all_Cons: "assign_all m (kv # kvs) = assign_all (m(fst kv \<mapsto> snd kv)) kvs"
  by (simp add: assign_all_def)

lemma parse_aliases_loop_spec:
  "parse_aliases_loop ls al f rem = (al', rem')
   \<Longrightarrow> al' = assign_all al (alias_directives ls)
       \<and> (\<exists>extra. rem' = rem @ extra \<and> list_all (\<lambda>x. alias_match x = None) extra
            \<and> filter (\<lambda>x. strip x \<noteq> []) extra
               = filter (\<lambda>x. strip x \<noteq> [] \<and> alias_match x = None) (map rstrip ls))"
proof (induction ls arbitrary: al f rem)
  case Nil
  then show ?case by (simp add: assign_all_def)
next
  case (Cons l ls)
  let ?line = "rstrip l"
  show ?case
  proof (cases "f \<and> strip ?line = []")
    case True
    then have none: "alias_match ?line = None" by (simp add: blank_no_alias)
    from Cons.prems True have "parse_aliases_loop ls al f rem = (al', rem')"
      by (simp add: Let_def)
    from Cons.IH [OF this] show ?thesis using none True by simp
  next
    case False
    show ?thesis
    proof (cases "alias_match ?line")
      case None
      with Cons.prems False have "parse_aliases_loop ls al False (rem @ [?line]) = (al', rem')"
        by (auto simp: Let_def)
      from Cons.IH [OF this] obtain extra where
        al: "al' = assign_all al (alias_directives ls)"
        and e: "rem' = (rem @ [?line]) @ extra" "list_all (\<lambda>x. alias_match x = None) extra"
          "filter (\<lambda>x. strip x \<noteq> []) extra
             = filter (\<lambda>x. strip x \<noteq> [] \<and> alias_match x = None) (map rstrip ls)"
        by blast
      have "rem' = rem @ (?line # extra)" using e(1) by simp
      moreover have "list_all (\<lambda>x. alias_match x = None) (?line # extra)"
        using e(2) None by simp
      moreover have "filter (\<lambda>x. strip x \<noteq> []) (?line # extra)
             = filter (\<lambda>x. strip x \<noteq> [] \<and> alias_match x = None) (map rstrip (l # ls))"
        using e(3) None by simp
      ultimately show ?thesis using al None by (intro conjI exI [of _ "?line # extra"]) simp_all
    next
      case (Some kv)
      obtain k v where kv: "kv = (k, v)" by (cases kv)
      with Cons.prems False Some have "parse_aliases_loop ls (al(k \<mapsto> v)) True rem = (al', rem')"
        by (auto simp: Let_def)
      from Cons.IH [OF this] have ih:
        "al' = assign_all (al(k \<mapsto> v)) (alias_directives ls)
         \<and> (\<exists>extra. rem' = rem @ extra \<and> list_all (\<lambda>x. alias_match x = None) extra
              \<and> filter (\<lambda>x. strip x \<noteq> []) extra
                 = filter (\<lambda>x. strip x \<noteq> [] \<and> alias_match x = None) (map rstrip ls))" .
      have "alias_directives (l # ls) = (k, v) # alias_directives ls"
        using Some kv by simp
      then have dirs: "assign_all al (alias_directives (l # ls))
                       = assign_all (al(k \<mapsto> v)) (alias_directives ls)"
        by (simp only: assign_all_Cons fst_conv snd_conv)
      have fl: "filter (\<lambda>x. strip x \<noteq> [] \<and> alias_match x = None) (map rstrip (l # ls))
                = filter (\<lambda>x. strip x \<noteq> [] \<and> alias_match x = None) (map rstrip ls)"
        using Some by simp
      show ?thesis unfolding dirs fl by (rule ih)
    qed
  qed
qed

text \<open>
  Claim C4, as amended. Alias collection does not end at the first line that is not an
  alias directive. Every line of the file that has the form of an alias directive is
  recorded, in file order, a later key overwriting an earlier one, and none of them is
  passed on; the lines passed on that are not blank are exactly the lines of the file
  that are neither blank nor alias directives, in file order. (A line that is not a
  directive only ends the skipping of blank lines, until the next directive.)
\<close>

theorem alias_lines_collected_everywhere:
  "fst (parse_aliases lines) = assign_all Map.empty (alias_directives lines)
   \<and> list_all (\<lambda>x. alias_match x = None) (snd (parse_aliases lines))
   \<and> filter (\<lambda>x. strip x \<noteq> []) (snd (parse_aliases lines))
       = filter (\<lambda>x. strip x \<noteq> [] \<and> alias_match x = None) (map rstrip lines)"
proof -
  obtain al' rem' where p: "parse_aliases_loop lines Map.empty True [] = (al', rem')"
    by (cases "parse_aliases_loop lines Map.empty True []")
  from parse_aliases_loop_spec [OF p] show ?thesis using p by (auto simp: parse_aliases_def)
qed

text \<open>
  Claim C4 as stated says that after the header line the line \<^verbatim>\<open>A=Assets\<close> is not
  recorded and is passed on. It is recorded, and only the header is passed on.
\<close>

theorem alias_after_header_is_recorded:
  "fst (parse_aliases [''2024/01/01 Shop'', ''A=Assets'']) ''A'' = Some ''Assets''
   \<and> snd (parse_aliases [''2024/01/01 Shop'', ''A=Assets'']) = [''2024/01/01 Shop'']"
  by (simp add: text_eval parse_eval)

section \<open>Importing a file twice\<close>

lemma get_or_create_transaction_keeps_hashes:
  assumes "get_or_create_transaction H t d = (r, d')"
    and "find P (db_transactions d) \<noteq> None"
  shows "find P (db_transactions d') \<noteq> None"
  using get_or_create_transaction_transactions [OF assms(1)] assms(2)
  by (auto simp: find_append)

lemma import_transactions_records_hashes:
  "import_transactions (get_or_create_transaction H) ts i s d = (i', s', d')
   \<Longrightarrow> (\<forall>t\<in>set ts. find (\<lambda>x. txn_hash x = calculate_hash H t) (db_transactions d') \<noteq> None)
       \<and> (\<forall>P. find P (db_transactions d) \<noteq> None \<longrightarrow> find P (db_transactions d') \<noteq> None)"
proof (induction ts arbitrary: i s d)
  case Nil
  then show ?case by simp
next
  case (Cons t ts)
  obtain r d1 where g: "get_or_create_transaction H t d = (r, d1)"
    by (cases "get_or_create_transaction H t d")
  obtain i1 s1 where step: "import_transactions (get_or_create_transaction H) ts i1 s1 d1 = (i', s', d')"
    using Cons.prems g by (cases r; auto split: option.splits)
  note ih = Cons.IH [OF step]
  have here: "find (\<lambda>x. txn_hash x = calculate_hash H t) (db_transactions d1) \<noteq> None"
    by (rule get_or_create_transaction_records_hash [OF g])
  have keep: "find P (db_transactions d1) \<noteq> None" if "find P (db_transactions d) \<noteq> None" for P
    using g that by (rule get_or_create_transaction_keeps_hashes)
  show ?case using ih here keep by auto
qed

lemma import_transactions_all_known:
  "\<forall>t\<in>set ts. find (\<lambda>x. txn_hash x = calculate_hash H t) (db_transactions d) \<noteq> None
   \<Longrightarrow> import_transactions (get_or_create_transaction H) ts i s d = (i, s + length ts, d)"
  by (induction ts arbitrary: s) (simp_all add: get_or_create_transaction_known)

lemma foldl_update_one_balance_transactions:
  "db_transactions (foldl update_one_balance d accts) = db_transactions d"
  by (induction accts arbitrary: d) (simp_all add: update_one_balance_def split: prod.splits)

lemma update_account_balances_transactions:
  "db_transactions (update_account_balances d) = db_transactions d"
  by (simp add: update_account_balances_def foldl_update_one_balance_transactions)

text \<open>
  Claim C2. When a run of \<^verbatim>\<open>import_ledger_file\<close> has returned, a second run on the same
  file against the store the first run left returns \<^verbatim>\<open>imported = 0\<close> and
  \<^verbatim>\<open>skipped = total_parsed\<close>, with the \<^verbatim>\<open>total_parsed\<close> of the first run: for every
  digest, every file system, every store the first run starts from, and whether or not
  either run updates the balances.
\<close>

theorem second_import_skips_all:
  assumes "import_ledger_file H fs file_path update_balances d = Inr (r1, d1)"
  shows "\<exists>d2. import_ledger_file H fs file_path update_balances' d1
              = Inr (\<lparr>imported = 0, skipped = total_parsed r1, total_parsed = total_parsed r1\<rparr>, d2)"
proof -
  let ?path = "case file_path of None \<Rightarrow> settings_ledger_file_path | Some p \<Rightarrow> p"
  from assms have present: "fs ?path \<noteq> Absent"
    by (auto simp: import_ledger_file_def import_ledger_file_with_def Let_def split: if_splits)
  from assms present obtain ts where parsed: "parse_ledger_file fs ?path = Inr ts"
    by (auto simp: import_ledger_file_def import_ledger_file_with_def Let_def split: sum.splits)
  obtain i s d0 where loop: "import_transactions (get_or_create_transaction H) ts 0 0 d = (i, s, d0)"
    by (cases "import_transactions (get_or_create_transaction H) ts 0 0 d")
  from assms present parsed loop
  have r1: "total_parsed r1 = length ts"
    and d1: "d1 = (if update_balances then update_account_balances d0 else d0)"
    by (auto simp: import_ledger_file_def import_ledger_file_with_def Let_def)
  have "db_transactions d1 = db_transactions d0"
    using d1 by (simp add: update_account_balances_transactions)
  with import_transactions_records_hashes [OF loop]
  have "\<forall>t\<in>set ts. find (\<lambda>x. txn_hash x = calculate_hash H t) (db_transactions d1) \<noteq> None"
    by simp
  then have "import_transactions (get_or_create_transaction H) ts 0 0 d1 = (0, 0 + length ts, d1)"
    by (rule import_transactions_all_known)
  then show ?thesis using present parsed r1
    by (simp add: import_ledger_file_def import_ledger_file_with_def Let_def)
qed

text \<open>
  The claim at a file with one transaction and the empty store: the first run imports
  it, the second skips it.
\<close>

theorem second_import_skips_all_witness:
  "\<forall>H. \<exists>r1 d1 d2.
     import_ledger_file H
       (single_file ''ledger''
          [''2024/01/15 Grocery'', ''    Expenses:Food  1,250.00'', ''    Assets:Banking:Checking''])
       (Some ''ledger'') True empty_db = Inr (r1, d1)
     \<and> imported r1 = 1 \<and> total_parsed r1 = 1
     \<and> import_ledger_file H
       (single_file ''ledger''
          [''2024/01/15 Grocery'', ''    Expenses:Food  1,250.00'', ''    Assets:Banking:Checking''])
       (Some ''ledger'') True d1
       = Inr (\<lparr>imported = 0, skipped = 1, total_parsed = 1\<rparr>, d2)"
proof
  fix H
  let ?fs = "single_file ''ledger''
          [''2024/01/15 Grocery'', ''    Expenses:Food  1,250.00'', ''    Assets:Banking:Checking'']"
  obtain r1 d1 where ev: "import_ledger_file H ?fs (Some ''ledger'') True empty_db = Inr (r1, d1)"
    and c: "imported r1 = 1" "total_parsed r1 = 1"
    by (simp add: text_eval parse_eval hash_eval store_eval)
  from second_import_skips_all [OF ev, of True] c obtain d2 where
    "import_ledger_file H ?fs (Some ''ledger'') True d1
       = Inr (\<lparr>imported = 0, skipped = 1, total_parsed = 1\<rparr>, d2)"
    by auto
  with ev c show "\<exists>r1 d1 d2.
     import_ledger_file H ?fs (Some ''ledger'') True empty_db = Inr (r1, d1)
     \<and> imported r1 = 1 \<and> total_parsed r1 = 1
     \<and> import_ledger_file H ?fs (Some ''ledger'') True d1
       = Inr (\<lparr>imported = 0, skipped = 1, total_parsed = 1\<rparr>, d2)"
    by blast
qed

section \<open>The inferred amount\<close>

lemma parse_amount_currency: "parse_amount s = Inr (a, c) \<Longrightarrow> c = ''INR''"
  by (auto simp: parse_amount_def Let_def split: if_splits)

lemma parse_postings_currency:
  "parse_postings al ls ps = Inr ps' \<Longrightarrow> \<forall>p\<in>set ps. currency p = ''INR''
   \<Longrightarrow> \<forall>p\<in>set ps'. currency p = ''INR''"
proof (induction ls arbitrary: ps)
  case Nil
  then show ?case by simp
next
  case (Cons l ls)
  let ?line = "rstrip l"
  show ?case
  proof (cases "strip ?line = [] \<or> comment_match ?line")
    case True
    with Cons.prems(1) have "parse_postings al ls ps = Inr ps'" by (simp add: Let_def)
    from Cons.IH [OF this Cons.prems(2)] show ?thesis .
  next
    case False
    show ?thesis
    proof (cases "posting_match ?line")
      case None
      show ?thesis
      proof (cases "posting_account_only_match ?line")
        case None
        with Cons.prems(1) False \<open>posting_match ?line = None\<close>
        have "parse_postings al ls ps = Inr ps'" by (simp add: Let_def)
        from Cons.IH [OF this Cons.prems(2)] show ?thesis .
      next
        case (Some a)
        with Cons.prems(1) False \<open>posting_match ?line = None\<close>
        have "parse_postings al ls
                (ps @ [\<lparr>account = expand_aliases al (strip a), amount = None, currency = ''INR''\<rparr>])
              = Inr ps'" by (simp add: Let_def)
        from Cons.IH [OF this] Cons.prems(2) show ?thesis by simp
      qed
    next
      case (Some m)
      obtain a amount_text where m: "m = (a, amount_text)" by (cases m)
      from Cons.prems(1) False Some m obtain amt cur where
        pa: "parse_amount (strip amount_text) = Inr (amt, cur)"
        and rest: "parse_postings al ls
                (ps @ [\<lparr>account = expand_aliases al (strip a), amount = amt, currency = cur\<rparr>])
              = Inr ps'"
        by (auto simp: Let_def split: sum.splits)
      from parse_amount_currency [OF pa] have "cur = ''INR''" .
      with Cons.IH [OF rest] Cons.prems(2) show ?thesis by simp
    qed
  qed
qed

lemma parse_transaction_currency:
  "parse_transaction al dl pls = Inr (Some t) \<Longrightarrow> inr_postings t"
  by (auto simp: parse_transaction_def inr_postings_def list_all_iff
           split: option.splits prod.splits sum.splits if_splits
           dest!: parse_postings_currency)

lemma close_transaction_currency:
  "close_transaction al cur cp txs = Inr txs' \<Longrightarrow> list_all inr_postings txs
   \<Longrightarrow> list_all inr_postings txs'"
  by (auto simp: close_transaction_def split: option.splits sum.splits
           dest: parse_transaction_currency)

lemma group_lines_currency:
  "group_lines al ls cur cp txs = Inr txs' \<Longrightarrow> list_all inr_postings txs
   \<Longrightarrow> list_all inr_postings txs'"
proof (induction ls arbitrary: cur cp txs)
  case Nil
  then show ?case by (auto dest: close_transaction_currency)
next
  case (Cons l ls)
  let ?line = "rstrip l"
  show ?case
  proof (cases "strip ?line = [] \<or> comment_match ?line")
    case True
    with Cons.prems(1) have "group_lines al ls cur cp txs = Inr txs'" by (simp add: Let_def)
    from Cons.IH [OF this Cons.prems(2)] show ?thesis .
  next
    case False
    show ?thesis
    proof (cases "date_match ?line \<noteq> None")
      case True
      with Cons.prems(1) False obtain txs1 where
        c: "close_transaction al cur cp txs = Inr txs1"
        and g: "group_lines al ls (Some ?line) [] txs1 = Inr txs'"
        by (auto simp: Let_def split: sum.splits)
      from close_transaction_currency [OF c Cons.prems(2)] have "list_all inr_postings txs1" .
      from Cons.IH [OF g this] show ?thesis .
    next
      case nodate: False
      show ?thesis
      proof (cases cur)
        case None
        with Cons.prems(1) False nodate have "group_lines al ls cur cp txs = Inr txs'"
          by (simp add: Let_def)
        from Cons.IH [OF this Cons.prems(2)] show ?thesis .
      next
        case (Some dl)
        with Cons.prems(1) False nodate have "group_lines al ls cur (cp @ [?line]) txs = Inr txs'"
          by (simp add: Let_def)
        from Cons.IH [OF this Cons.prems(2)] show ?thesis .
      qed
    qed
  qed
qed

lemma parse_lines_currency:
  "parse_lines lines = Inr ts \<Longrightarrow> t \<in> set ts \<Longrightarrow> p \<in> set (postings t) \<Longrightarrow> currency p = ''INR''"
proof -
  assume a: "parse_lines lines = Inr ts" "t \<in> set ts" "p \<in> set (postings t)"
  from a(1) obtain al rem where "group_lines al rem None [] [] = Inr ts"
    by (auto simp: parse_lines_def split: prod.splits)
  from group_lines_currency [OF this] have "list_all inr_postings ts" by simp
  with a(2,3) show ?thesis by (auto simp: list_all_iff inr_postings_def)
qed

lemma create_postings_rows:
  "create_postings tid ps d = (e, d')
   \<Longrightarrow> e = None \<and> (\<exists>rows. db_postings d' = db_postings d @ rows \<and> list_all2 (row_of tid) ps rows)"
proof (induction ps arbitrary: d)
  case Nil
  then show ?case by simp
next
  case (Cons p ps)
  obtain r d1 where g: "get_or_create_account (account p) d = (r, d1)"
    by (cases "get_or_create_account (account p) d")
  from get_or_create_account_hit [OF g] obtain a where a: "r = Some a" by auto
  from get_or_create_account_frame [OF g] have f: "db_postings d1 = db_postings d" by simp
  let ?row = "\<lparr>pm_transaction_id = tid, pm_account_id = acc_id a,
               pm_amount = (case amount p of Some x \<Rightarrow> x | None \<Rightarrow> Decimal_0_00),
               pm_currency = currency p\<rparr>"
  from Cons.prems g a have
    step: "create_postings tid ps (d1\<lparr>db_postings := db_postings d1 @ [?row]\<rparr>) = (e, d')"
    by simp
  from Cons.IH [OF step] obtain rows where
    e: "e = None" and rows: "db_postings d' = (db_postings d1 @ [?row]) @ rows"
    and rel: "list_all2 (row_of tid) ps rows"
    by auto
  have "db_postings d' = db_postings d @ (?row # rows)" using rows f by simp
  moreover have "list_all2 (row_of tid) (p # ps) (?row # rows)"
    using rel by (simp add: row_of_def)
  ultimately show ?case using e by blast
qed

lemma balance_missing_split:
  "\<forall>q\<in>set before. amount q \<noteq> None \<Longrightarrow> amount p = None
   \<Longrightarrow> balance_missing a c (before @ p # after) = before @ p\<lparr>amount := Some a, currency := c\<rparr> # after"
  by (induction before) auto

lemma filter_all: "\<forall>q\<in>set xs. P q \<Longrightarrow> filter P xs = xs"
  by (induction xs) auto

lemma filter_none: "\<forall>q\<in>set xs. \<not> P q \<Longrightarrow> filter P xs = []"
  by (induction xs) auto

lemma dec_fix_small: "\<bar>coefficient d\<bar> < 10 ^ 28 \<Longrightarrow> dec_fix d = d"
  by (simp add: dec_fix_def)

lemma dec_value_scaled:
  assumes "places d \<le> P"
  shows "dec_value d = of_int (scaled P d) / 10 ^ P"
proof -
  have "(10::rat) ^ P = 10 ^ (P - places d) * 10 ^ places d"
    using assms by (simp add: power_add [symmetric])
  then show ?thesis by (simp add: dec_value_def scaled_def)
qed

lemma abs_coefficient_le_scaled: "\<bar>coefficient d\<bar> \<le> \<bar>scaled P d\<bar>"
proof -
  have "(1::int) \<le> 10 ^ (P - places d)" by simp
  then have "\<bar>coefficient d\<bar> * 1 \<le> \<bar>coefficient d\<bar> * 10 ^ (P - places d)"
    by (rule mult_left_mono) simp
  then show ?thesis by (simp add: scaled_def abs_mult)
qed

lemma dec_add_exact:
  assumes pa: "places a \<le> P" and pb: "places b \<le> P"
    and small: "\<bar>scaled P a\<bar> + \<bar>scaled P b\<bar> < 10 ^ 28"
  shows "places (dec_add a b) \<le> P \<and> scaled P (dec_add a b) = scaled P a + scaled P b"
proof -
  let ?p = "max (places a) (places b)"
  let ?c = "coefficient a * 10 ^ (?p - places a) + coefficient b * 10 ^ (?p - places b)"
  let ?x = "\<lparr>coefficient = ?c, places = ?p\<rparr>"
  have p: "?p \<le> P" using pa pb by simp
  have ea: "(10::int) ^ (?p - places a) * 10 ^ (P - ?p) = 10 ^ (P - places a)"
    using p by (simp add: power_add [symmetric])
  have eb: "(10::int) ^ (?p - places b) * 10 ^ (P - ?p) = 10 ^ (P - places b)"
    using p by (simp add: power_add [symmetric])
  have "scaled P ?x = coefficient a * (10 ^ (?p - places a) * 10 ^ (P - ?p))
                      + coefficient b * (10 ^ (?p - places b) * 10 ^ (P - ?p))"
    by (simp add: scaled_def algebra_simps)
  then have sx: "scaled P ?x = scaled P a + scaled P b"
    by (simp only: ea eb scaled_def)
  have "\<bar>coefficient ?x\<bar> \<le> \<bar>scaled P ?x\<bar>" by (rule abs_coefficient_le_scaled)
  also have "\<dots> \<le> \<bar>scaled P a\<bar> + \<bar>scaled P b\<bar>" by (simp only: sx abs_triangle_ineq)
  finally have "\<bar>coefficient ?x\<bar> < 10 ^ 28" using small by simp
  then have "dec_fix ?x = ?x" by (rule dec_fix_small)
  then have "dec_add a b = ?x" by (simp add: dec_add_def Let_def)
  then show ?thesis using sx p by simp
qed

lemma foldl_dec_add_exact:
  "places acc \<le> P \<Longrightarrow> \<forall>d\<in>set ds. places d \<le> P
   \<Longrightarrow> \<bar>scaled P acc\<bar> + sum_list (map (\<lambda>d. \<bar>scaled P d\<bar>) ds) < 10 ^ 28
   \<Longrightarrow> places (foldl dec_add acc ds) \<le> P
       \<and> scaled P (foldl dec_add acc ds) = scaled P acc + sum_list (map (scaled P) ds)"
proof (induction ds arbitrary: acc)
  case Nil
  then show ?case by simp
next
  case (Cons d ds)
  have nonneg: "0 \<le> sum_list (map (\<lambda>d. \<bar>scaled P d\<bar>) ds)"
    by (rule sum_list_nonneg) auto
  have "\<bar>scaled P acc\<bar> + \<bar>scaled P d\<bar> < 10 ^ 28"
    using Cons.prems(3) nonneg by simp
  with Cons.prems(1,2) have step:
    "places (dec_add acc d) \<le> P \<and> scaled P (dec_add acc d) = scaled P acc + scaled P d"
    by (intro dec_add_exact) simp_all
  then have "\<bar>scaled P (dec_add acc d)\<bar> \<le> \<bar>scaled P acc\<bar> + \<bar>scaled P d\<bar>"
    by (simp add: abs_triangle_ineq)
  then have bound: "\<bar>scaled P (dec_add acc d)\<bar> + sum_list (map (\<lambda>d. \<bar>scaled P d\<bar>) ds) < 10 ^ 28"
    using Cons.prems(3) by simp
  from Cons.IH [OF _ _ bound] step Cons.prems(2) show ?case by simp
qed

lemma places_le_max_places: "d \<in> set ds \<Longrightarrow> places d \<le> max_places ds"
  by (induction ds) (auto simp: max_places_def)

lemma sum_list_dec_value:
  "\<forall>d\<in>set ds. places d \<le> P
   \<Longrightarrow> sum_list (map dec_value ds) = of_int (sum_list (map (scaled P) ds)) / 10 ^ P"
  by (induction ds) (simp_all add: dec_value_scaled add_divide_distrib)

lemma abs_sum_list_le: "\<bar>sum_list (map f xs)\<bar> \<le> sum_list (map (\<lambda>x. \<bar>f x\<bar>) xs)" for f :: "'a \<Rightarrow> int"
  by (induction xs) (auto intro: order_trans [OF abs_triangle_ineq])

lemma neg_py_sum_value:
  assumes "fits_context ds"
  shows "dec_value (dec_neg (py_sum ds)) = - sum_list (map dec_value ds)"
proof -
  let ?P = "max_places ds"
  have pl: "\<forall>d\<in>set ds. places d \<le> ?P" by (simp add: places_le_max_places)
  have small: "sum_list (map (\<lambda>d. \<bar>scaled ?P d\<bar>) ds) < 10 ^ 28"
    using assms by (simp add: fits_context_def)
  have "places (dec_of_int 0) \<le> ?P" by (simp add: dec_of_int_def)
  moreover have "\<bar>scaled ?P (dec_of_int 0)\<bar> + sum_list (map (\<lambda>d. \<bar>scaled ?P d\<bar>) ds) < 10 ^ 28"
    using small by (simp add: scaled_def dec_of_int_def)
  ultimately have
    "places (foldl dec_add (dec_of_int 0) ds) \<le> ?P
     \<and> scaled ?P (foldl dec_add (dec_of_int 0) ds)
         = scaled ?P (dec_of_int 0) + sum_list (map (scaled ?P) ds)"
    using pl by (intro foldl_dec_add_exact) simp_all
  then have ps: "places (py_sum ds) \<le> ?P"
    and sc: "scaled ?P (py_sum ds) = sum_list (map (scaled ?P) ds)"
    by (simp_all add: py_sum_def scaled_def dec_of_int_def)
  have "\<bar>coefficient (py_sum ds)\<bar> \<le> \<bar>scaled ?P (py_sum ds)\<bar>"
    by (rule abs_coefficient_le_scaled)
  also have "\<dots> \<le> sum_list (map (\<lambda>d. \<bar>scaled ?P d\<bar>) ds)"
    by (simp only: sc abs_sum_list_le)
  finally have "\<bar>coefficient (py_sum ds)\<bar> < 10 ^ 28" using small by simp
  then have "dec_neg (py_sum ds)
             = \<lparr>coefficient = - coefficient (py_sum ds), places = places (py_sum ds)\<rparr>"
    by (simp add: dec_neg_def dec_fix_small)
  then have "dec_value (dec_neg (py_sum ds)) = - dec_value (py_sum ds)"
    by (simp add: dec_value_def)
  also have "dec_value (py_sum ds) = of_int (scaled ?P (py_sum ds)) / 10 ^ ?P"
    using ps by (rule dec_value_scaled)
  also have "\<dots> = sum_list (map dec_value ds)"
    using sum_list_dec_value [OF pl] sc by simp
  finally show ?thesis .
qed

lemma dec_value_zero: "dec_value Decimal_0_00 = 0"
  by (simp add: dec_value_def Decimal_0_00_def)

text \<open>
  Claim C7, as amended. Let a transaction have exactly one posting \<open>p\<close> without an
  amount, let the amounts of the other postings be such that the Decimal context rounds
  nothing in their sum, and let the transaction not be in the store yet. Then
  \<^verbatim>\<open>get_or_create_transaction\<close> persists it with one posting row for each posting, and
  the amount of the row written for \<open>p\<close> is, as a number, the negation of the sum of the
  amounts of the other postings. The currency of that row is the currency of the first
  posting that has an amount; when no posting has an amount, nothing is inferred and the
  row keeps the currency of \<open>p\<close> itself, which is INR for every transaction that the
  parser returns.
\<close>

theorem single_missing_amount_inferred:
  assumes shape: "postings t = before @ p # after"
    and missing: "amount p = None"
    and others: "\<forall>q\<in>set (before @ after). amount q \<noteq> None"
    and fits: "fits_context (amounts_of (before @ after))"
    and new: "find (\<lambda>x. txn_hash x = calculate_hash H t) (db_transactions d) = None"
  shows "(\<exists>row d' r.
           get_or_create_transaction H t d = (Inr (Some row), d')
           \<and> length (db_postings d') = length (db_postings d) + length (postings t)
           \<and> r = db_postings d' ! (length (db_postings d) + length before)
           \<and> pm_transaction_id r = txn_id row
           \<and> dec_value (pm_amount r) = - sum_list (map dec_value (amounts_of (before @ after)))
           \<and> pm_currency r = (case before @ after of [] \<Rightarrow> currency p | q # _ \<Rightarrow> currency q))
         \<and> (parse_lines lines = Inr ts \<and> t \<in> set ts \<longrightarrow> currency p = ''INR'')"
proof (intro conjI impI)
  assume "parse_lines lines = Inr ts \<and> t \<in> set ts"
  then show "currency p = ''INR''"
    using parse_lines_currency [of lines ts t p] by (simp add: shape)
next
  let ?row = "\<lparr>txn_id = next_id (map txn_id (db_transactions d)), txn_date = date t,
               txn_payee = payee t, txn_hash = calculate_hash H t\<rparr>"
  let ?d1 = "d\<lparr>db_transactions := db_transactions d @ [?row]\<rparr>"
  have bef: "\<forall>q\<in>set before. amount q \<noteq> None" and aft: "\<forall>q\<in>set after. amount q \<noteq> None"
    using others by auto
  have without: "filter (\<lambda>q. amount q = None) (postings t) = [p]"
    using bef aft missing by (simp add: shape filter_none)
  have having: "filter (\<lambda>q. amount q \<noteq> None) (postings t) = before @ after"
    using bef aft missing by (simp add: shape filter_all)
  show "\<exists>row d' r.
           get_or_create_transaction H t d = (Inr (Some row), d')
           \<and> length (db_postings d') = length (db_postings d) + length (postings t)
           \<and> r = db_postings d' ! (length (db_postings d) + length before)
           \<and> pm_transaction_id r = txn_id row
           \<and> dec_value (pm_amount r) = - sum_list (map dec_value (amounts_of (before @ after)))
           \<and> pm_currency r = (case before @ after of [] \<Rightarrow> currency p | q # _ \<Rightarrow> currency q)"
  proof (cases "before @ after = []")
    case True
    then have ps: "postings t = [p]" using shape by simp
    obtain e d' where cp: "create_postings (txn_id ?row) (postings t) ?d1 = (e, d')"
      by (cases "create_postings (txn_id ?row) (postings t) ?d1")
    from create_postings_rows [OF cp] obtain rows where
      e: "e = None" and rows: "db_postings d' = db_postings ?d1 @ rows"
      and rel: "list_all2 (row_of (txn_id ?row)) (postings t) rows"
      by auto
    from rel ps obtain r0 where r0: "rows = [r0]" "row_of (txn_id ?row) p r0"
      by (auto simp: list_all2_Cons1)
    have g: "get_or_create_transaction H t d = (Inr (Some ?row), d')"
      using new without having True cp e
      by (simp add: get_or_create_transaction_def Let_def)
    have len: "length (db_postings d') = length (db_postings d) + length (postings t)"
      using rows r0 ps by simp
    have nth: "db_postings d' ! (length (db_postings d) + length before) = r0"
      using rows r0 True by simp
    have "dec_value (pm_amount r0) = - sum_list (map dec_value (amounts_of (before @ after)))"
      using r0(2) missing True by (simp add: row_of_def dec_value_zero)
    moreover have "pm_currency r0 = (case before @ after of [] \<Rightarrow> currency p | q # _ \<Rightarrow> currency q)"
      using r0(2) True by (simp add: row_of_def)
    moreover have "pm_transaction_id r0 = txn_id ?row" using r0(2) by (simp add: row_of_def)
    ultimately show ?thesis using g len nth by blast
  next
    case False
    let ?a = "dec_neg (py_sum (amounts_of (before @ after)))"
    let ?c = "case before @ after of [] \<Rightarrow> ''INR'' | q # _ \<Rightarrow> currency q"
    let ?ps = "before @ p\<lparr>amount := Some ?a, currency := ?c\<rparr> # after"
    have bm: "balance_missing ?a ?c (postings t) = ?ps"
      using bef missing by (simp add: shape balance_missing_split)
    obtain e d' where cp: "create_postings (txn_id ?row) ?ps ?d1 = (e, d')"
      by (cases "create_postings (txn_id ?row) ?ps ?d1")
    from create_postings_rows [OF cp] obtain rows where
      e: "e = None" and rows: "db_postings d' = db_postings ?d1 @ rows"
      and rel: "list_all2 (row_of (txn_id ?row)) ?ps rows"
      by auto
    have g: "get_or_create_transaction H t d = (Inr (Some ?row), d')"
      using new without having False cp e bm
      by (simp add: get_or_create_transaction_def Let_def)
    have lrows: "length rows = length (postings t)"
      using list_all2_lengthD [OF rel] by (simp add: shape)
    have len: "length (db_postings d') = length (db_postings d) + length (postings t)"
      using rows lrows by simp
    have "row_of (txn_id ?row) (?ps ! length before) (rows ! length before)"
      using rel by (rule list_all2_nthD) simp
    then have r: "row_of (txn_id ?row) (p\<lparr>amount := Some ?a, currency := ?c\<rparr>) (rows ! length before)"
      by simp
    have nth: "db_postings d' ! (length (db_postings d) + length before) = rows ! length before"
      using rows by (simp add: nth_append)
    have "pm_amount (rows ! length before) = ?a"
      using r by (simp add: row_of_def)
    then have "dec_value (pm_amount (rows ! length before))
               = - sum_list (map dec_value (amounts_of (before @ after)))"
      using neg_py_sum_value [OF fits] by simp
    moreover have "pm_currency (rows ! length before)
                   = (case before @ after of [] \<Rightarrow> currency p | q # _ \<Rightarrow> currency q)"
      using r False by (cases "before @ after") (simp_all add: row_of_def)
    moreover have "pm_transaction_id (rows ! length before) = txn_id ?row"
      using r by (simp add: row_of_def)
    ultimately show ?thesis using g len nth by (metis (no_types, lifting))
  qed
qed

text \<open>
  The amended claim at a transaction with the amounts 1,250.00 and 100 and a third
  posting without an amount, in the empty store: the third posting row has the amount
  -1350 and the currency INR.
\<close>

theorem single_missing_amount_inferred_witness:
  "\<forall>H. \<exists>row d'.
     parse_lines [''2024/01/15 Grocery'', ''    Expenses:Food  1,250.00'',
                  ''    Expenses:Tax  100'', ''    Assets:Banking:Checking'']
       = Inr [\<lparr>date = \<lparr>year = 2024, month = 1, day = 15\<rparr>, payee = ''Grocery'',
               postings =
                 [\<lparr>account = ''Expenses:Food'', amount = Some \<lparr>coefficient = 125000, places = 2\<rparr>,
                    currency = ''INR''\<rparr>,
                  \<lparr>account = ''Expenses:Tax'', amount = Some \<lparr>coefficient = 100, places = 0\<rparr>,
                    currency = ''INR''\<rparr>,
                  \<lparr>account = ''Assets:Banking:Checking'', amount = None, currency = ''INR''\<rparr>]\<rparr>]
     \<and> fits_context [\<lparr>coefficient = 125000, places = 2\<rparr>, \<lparr>coefficient = 100, places = 0\<rparr>]
     \<and> get_or_create_transaction H
         \<lparr>date = \<lparr>year = 2024, month = 1, day = 15\<rparr>, payee = ''Grocery'',
          postings =
            [\<lparr>account = ''Expenses:Food'', amount = Some \<lparr>coefficient = 125000, places = 2\<rparr>,
               currency = ''INR''\<rparr>,
             \<lparr>account = ''Expenses:Tax'', amount = Some \<lparr>coefficient = 100, places = 0\<rparr>,
               currency = ''INR''\<rparr>,
             \<lparr>account = ''Assets:Banking:Checking'', amount = None, currency = ''INR''\<rparr>]\<rparr>
         empty_db = (Inr (Some row), d')
     \<and> length (db_postings d') = 3
     \<and> dec_value (pm_amount (db_postings d' ! 2)) = - 1350
     \<and> pm_currency (db_postings d' ! 2) = ''INR''"
proof
  fix H
  let ?food = "\<lparr>account = ''Expenses:Food'', amount = Some \<lparr>coefficient = 125000, places = 2\<rparr>,
                 currency = ''INR''\<rparr>"
  let ?tax = "\<lparr>account = ''Expenses:Tax'', amount = Some \<lparr>coefficient = 100, places = 0\<rparr>,
                currency = ''INR''\<rparr>"
  let ?checking = "\<lparr>account = ''Assets:Banking:Checking'', amount = None, currency = ''INR''\<rparr>"
  let ?t = "\<lparr>date = \<lparr>year = 2024, month = 1, day = 15\<rparr>, payee = ''Grocery'',
             postings = [?food, ?tax, ?checking]\<rparr>"
  let ?lines = "[''2024/01/15 Grocery'', ''    Expenses:Food  1,250.00'',
                 ''    Expenses:Tax  100'', ''    Assets:Banking:Checking'']"
  let ?ds = "[\<lparr>coefficient = 125000, places = 2\<rparr>, \<lparr>coefficient = 100, places = 0\<rparr>]"
  have parsed: "parse_lines ?lines = Inr [?t]"
    by (simp add: text_eval parse_eval)
  have shape: "postings ?t = [?food, ?tax] @ ?checking # []" by simp
  have missing: "amount ?checking = None" by simp
  have others: "\<forall>q\<in>set ([?food, ?tax] @ []). amount q \<noteq> None" by simp
  have ds: "amounts_of ([?food, ?tax] @ []) = ?ds" by simp
  have fits0: "fits_context ?ds"
    by (simp add: fits_context_def max_places_def scaled_def)
  have fits: "fits_context (amounts_of ([?food, ?tax] @ []))"
    by (simp only: ds fits0)
  have new: "find (\<lambda>x. txn_hash x = calculate_hash H ?t) (db_transactions empty_db) = None"
    by (simp add: empty_db_def)
  from single_missing_amount_inferred [OF shape missing others fits new]
  obtain row d' where
    g: "get_or_create_transaction H ?t empty_db = (Inr (Some row), d')"
    and len: "length (db_postings d') = length (db_postings empty_db) + length (postings ?t)"
    and amt: "dec_value (pm_amount (db_postings d' ! (length (db_postings empty_db)
                                                        + length [?food, ?tax])))
                = - sum_list (map dec_value (amounts_of ([?food, ?tax] @ [])))"
    and cur: "pm_currency (db_postings d' ! (length (db_postings empty_db) + length [?food, ?tax]))
                = (case [?food, ?tax] @ [] of [] \<Rightarrow> currency ?checking | q # _ \<Rightarrow> currency q)"
    by blast
  have total: "- sum_list (map dec_value (amounts_of ([?food, ?tax] @ []))) = - 1350"
    by (simp add: dec_value_def)
  from len have len': "length (db_postings d') = 3" by (simp add: empty_db_def)
  have ix: "length (db_postings empty_db) + length [?food, ?tax] = 2"
    by (simp add: empty_db_def)
  from amt total have amt': "dec_value (pm_amount (db_postings d' ! 2)) = - 1350"
    by (simp only: ix)
  from cur have cur': "pm_currency (db_postings d' ! 2) = ''INR''"
    unfolding ix by simp
  from parsed fits0 g len' amt' cur'
  show "\<exists>row d'. parse_lines ?lines = Inr [?t]
     \<and> fits_context ?ds
     \<and> get_or_create_transaction H ?t empty_db = (Inr (Some row), d')
     \<and> length (db_postings d') = 3
     \<and> dec_value (pm_amount (db_postings d' ! 2)) = - 1350
     \<and> pm_currency (db_postings d' ! 2) = ''INR''"
    by blast
qed

text \<open>
  Claim C7 as stated fails at two inputs. The parser reads an amount of 31 digits; the
  sum of that one amount is rounded to 28 digits, so the amount written for the posting
  without an amount is -12345678901234567890123456790 and not the negation of
  12345678901234567890123456789.01. And a transaction whose only posting has no amount
  and the currency USD is written with the currency USD, not INR: the branch that infers
  is guarded by \<^verbatim>\<open>postings_with_amounts\<close> and is not taken.
\<close>

theorem inferred_amount_rounded_or_currency_kept:
  "parse_lines [''2024/01/15 Car'', ''    Expenses:Car  12345678901234567890123456789.01'',
                ''    Assets:Bank'']
     = Inr [\<lparr>date = \<lparr>year = 2024, month = 1, day = 15\<rparr>, payee = ''Car'',
             postings =
               [\<lparr>account = ''Expenses:Car'',
                  amount = Some \<lparr>coefficient = 1234567890123456789012345678901, places = 2\<rparr>,
                  currency = ''INR''\<rparr>,
                \<lparr>account = ''Assets:Bank'', amount = None, currency = ''INR''\<rparr>]\<rparr>]
   \<and> map pm_amount (db_postings (snd (get_or_create_transaction id
         \<lparr>date = \<lparr>year = 2024, month = 1, day = 15\<rparr>, payee = ''Car'',
          postings =
            [\<lparr>account = ''Expenses:Car'',
               amount = Some \<lparr>coefficient = 1234567890123456789012345678901, places = 2\<rparr>,
               currency = ''INR''\<rparr>,
             \<lparr>account = ''Assets:Bank'', amount = None, currency = ''INR''\<rparr>]\<rparr> empty_db)))
     = [\<lparr>coefficient = 1234567890123456789012345678901, places = 2\<rparr>,
        \<lparr>coefficient = - 12345678901234567890123456790, places = 0\<rparr>]
   \<and> dec_value \<lparr>coefficient = - 12345678901234567890123456790, places = 0\<rparr>
     \<noteq> - dec_value \<lparr>coefficient = 1234567890123456789012345678901, places = 2\<rparr>
   \<and> map pm_currency (db_postings (snd (get_or_create_transaction id
         \<lparr>date = \<lparr>year = 2024, month = 1, day = 15\<rparr>, payee = ''Cash'',
          postings = [\<lparr>account = ''Assets:Cash'', amount = None, currency = ''USD''\<rparr>]\<rparr>
         empty_db)))
     = [''USD'']"
  by (simp add: text_eval parse_eval hash_eval store_eval dec_value_def)

section \<open>Errors and counts of a run\<close>

lemma import_transactions_counts:
  "\<exists>d'. import_transactions proc ts i s d
          = (i + length (filter is_created (outcomes proc ts d)),
             s + length (filter is_raised (outcomes proc ts d))
               + length (filter is_none (outcomes proc ts d)), d')"
proof (induction ts arbitrary: i s d)
  case Nil
  show ?case by simp
next
  case (Cons t ts)
  obtain r d1 where p: "proc t d = (r, d1)" by (cases "proc t d")
  show ?case
  proof (cases r)
    case (Inl e)
    from Cons.IH [of i "s + 1" d1] show ?thesis using p Inl by auto
  next
    case (Inr o1)
    show ?thesis
    proof (cases o1)
      case None
      from Cons.IH [of i "s + 1" d1] show ?thesis using p Inr None by auto
    next
      case (Some row)
      from Cons.IH [of "i + 1" s d1] show ?thesis using p Inr Some by auto
    qed
  qed
qed

lemma length_outcomes: "length (outcomes proc ts d) = length ts"
  by (induction ts arbitrary: d) simp_all

lemma outcome_kinds:
  "length (filter is_created os) + (length (filter is_raised os) + length (filter is_none os))
   = length os"
proof (induction os)
  case Nil
  show ?case by simp
next
  case (Cons x os)
  show ?case
  proof (cases x)
    case (Inl e)
    then show ?thesis using Cons by simp
  next
    case (Inr o1)
    then show ?thesis using Cons by (cases o1) simp_all
  qed
qed

lemma parse_postings_error:
  "parse_postings al ls ps = Inl e \<Longrightarrow> e = InvalidOperation"
proof (induction ls arbitrary: ps)
  case Nil
  then show ?case by simp
next
  case (Cons l ls)
  then show ?case
    by (auto simp: Let_def parse_amount_def split: if_splits option.splits sum.splits prod.splits)
qed

lemma parse_transaction_error:
  "parse_transaction al dl pls = Inl e \<Longrightarrow> e = InvalidOperation"
  by (auto simp: parse_transaction_def split: option.splits prod.splits sum.splits if_splits
           dest: parse_postings_error)

lemma close_transaction_error:
  "close_transaction al cur cp txs = Inl e \<Longrightarrow> e = InvalidOperation"
  by (auto simp: close_transaction_def split: option.splits sum.splits
           dest: parse_transaction_error)

lemma group_lines_error:
  "group_lines al ls cur cp txs = Inl e \<Longrightarrow> e = InvalidOperation"
proof (induction ls arbitrary: cur cp txs)
  case Nil
  then show ?case by (auto dest: close_transaction_error)
next
  case (Cons l ls)
  then show ?case
    by (auto simp: Let_def split: if_splits option.splits sum.splits
             dest: close_transaction_error)
qed

lemma parse_lines_error: "parse_lines lines = Inl e \<Longrightarrow> e = InvalidOperation"
  by (auto simp: parse_lines_def split: prod.splits dest: group_lines_error)

text \<open>
  Claim C8, as amended. \<^verbatim>\<open>import_ledger_file\<close> raises \<^verbatim>\<open>FileNotFoundError\<close> exactly
  when the path names nothing. The file is opened outside the \<^verbatim>\<open>try\<close> of the loop, so a
  path that exists and cannot be opened, a directory, gives the caller an error as
  well. Once the file is parsed the run returns its counts, whatever the call for a
  single transaction does: each transaction is processed, \<^verbatim>\<open>imported\<close> counts the calls
  that returned a transaction and \<^verbatim>\<open>skipped\<close> counts each call that raised and each call
  that returned \<^verbatim>\<open>None\<close> once. (The commit after the loop is taken to succeed.)
\<close>

theorem import_errors_and_counts:
  fixes file_path :: "string option"
  defines "path \<equiv> (case file_path of None \<Rightarrow> settings_ledger_file_path | Some p \<Rightarrow> p)"
  shows "(import_ledger_file_with proc fs file_path update_balances d = Inl FileNotFoundError
            \<longleftrightarrow> fs path = Absent)
         \<and> (fs path = Directory
              \<longrightarrow> import_ledger_file_with proc fs file_path update_balances d
                    = Inl IsADirectoryError)
         \<and> (parse_ledger_file fs path = Inr ts
              \<longrightarrow> (\<exists>d'. import_ledger_file_with proc fs file_path update_balances d
                          = Inr (\<lparr>imported = length (filter is_created (outcomes proc ts d)),
                                  skipped = length (filter is_raised (outcomes proc ts d))
                                            + length (filter is_none (outcomes proc ts d)),
                                  total_parsed = length ts\<rparr>, d'))
                  \<and> length (outcomes proc ts d) = length ts
                  \<and> length (filter is_created (outcomes proc ts d))
                      + (length (filter is_raised (outcomes proc ts d))
                         + length (filter is_none (outcomes proc ts d))) = length ts)"
proof (intro conjI impI)
  show "import_ledger_file_with proc fs file_path update_balances d = Inl FileNotFoundError
          \<longleftrightarrow> fs path = Absent"
  proof (cases "fs path")
    case Absent
    then show ?thesis by (simp add: import_ledger_file_with_def path_def)
  next
    case Directory
    then show ?thesis
      by (simp add: import_ledger_file_with_def path_def [symmetric] parse_ledger_file_def)
  next
    case (RegularFile lines)
    have "parse_lines lines \<noteq> Inl FileNotFoundError"
      using parse_lines_error [of lines FileNotFoundError] by auto
    then show ?thesis using RegularFile
      by (auto simp: import_ledger_file_with_def path_def [symmetric] parse_ledger_file_def
               split: sum.splits prod.splits)
  qed
next
  assume "fs path = Directory"
  then show "import_ledger_file_with proc fs file_path update_balances d = Inl IsADirectoryError"
    by (simp add: import_ledger_file_with_def path_def [symmetric] parse_ledger_file_def)
next
  assume p: "parse_ledger_file fs path = Inr ts"
  then have present: "fs path \<noteq> Absent"
    by (auto simp: parse_ledger_file_def)
  from import_transactions_counts [of proc ts 0 0 d] obtain d0 where
    "import_transactions proc ts 0 0 d
       = (length (filter is_created (outcomes proc ts d)),
          length (filter is_raised (outcomes proc ts d))
            + length (filter is_none (outcomes proc ts d)), d0)"
    by auto
  then show "\<exists>d'. import_ledger_file_with proc fs file_path update_balances d
                = Inr (\<lparr>imported = length (filter is_created (outcomes proc ts d)),
                        skipped = length (filter is_raised (outcomes proc ts d))
                                  + length (filter is_none (outcomes proc ts d)),
                        total_parsed = length ts\<rparr>, d')"
    using p present by (simp add: import_ledger_file_with_def path_def [symmetric])
next
  show "length (outcomes proc ts d) = length ts"
    by (rule length_outcomes)
next
  show "length (filter is_created (outcomes proc ts d))
          + (length (filter is_raised (outcomes proc ts d))
             + length (filter is_none (outcomes proc ts d))) = length ts"
    using outcome_kinds [of "outcomes proc ts d"] by (simp add: length_outcomes)
qed

text \<open>
  The amended claim at a file of two transactions, with a call that raises for the payee
  \<^verbatim>\<open>Bad\<close>: the run goes on to the second transaction and returns one skipped, one
  imported; and at a path that names nothing.
\<close>

theorem import_errors_and_counts_witness:
  "parse_ledger_file
     (single_file ''ledger''
        [''2024/01/01 Bad'', ''    Expenses:Food  10.00'', ''    Assets:Cash'',
         ''2024/01/02 Good'', ''    Expenses:Food  20.00'', ''    Assets:Cash'']) ''ledger''
     = Inr [\<lparr>date = \<lparr>year = 2024, month = 1, day = 1\<rparr>, payee = ''Bad'',
             postings =
               [\<lparr>account = ''Expenses:Food'', amount = Some \<lparr>coefficient = 1000, places = 2\<rparr>,
                  currency = ''INR''\<rparr>,
                \<lparr>account = ''Assets:Cash'', amount = None, currency = ''INR''\<rparr>]\<rparr>,
            \<lparr>date = \<lparr>year = 2024, month = 1, day = 2\<rparr>, payee = ''Good'',
             postings =
               [\<lparr>account = ''Expenses:Food'', amount = Some \<lparr>coefficient = 2000, places = 2\<rparr>,
                  currency = ''INR''\<rparr>,
                \<lparr>account = ''Assets:Cash'', amount = None, currency = ''INR''\<rparr>]\<rparr>]
   \<and> (\<exists>d'. import_ledger_file_with
          (\<lambda>t d. if payee t = ''Bad'' then (Inl AttributeError, d)
                  else get_or_create_transaction id t d)
          (single_file ''ledger''
             [''2024/01/01 Bad'', ''    Expenses:Food  10.00'', ''    Assets:Cash'',
              ''2024/01/02 Good'', ''    Expenses:Food  20.00'', ''    Assets:Cash''])
          (Some ''ledger'') True empty_db
        = Inr (\<lparr>imported = 1, skipped = 1, total_parsed = 2\<rparr>, d'))
   \<and> import_ledger_file_with (get_or_create_transaction id) (single_file ''ledger'' [])
        (Some ''other'') True empty_db = Inl FileNotFoundError"
proof -
  let ?proc = "\<lambda>t d. if payee t = ''Bad'' then (Inl AttributeError, d)
                      else get_or_create_transaction id t d"
  let ?fs = "single_file ''ledger''
        [''2024/01/01 Bad'', ''    Expenses:Food  10.00'', ''    Assets:Cash'',
         ''2024/01/02 Good'', ''    Expenses:Food  20.00'', ''    Assets:Cash'']"
  let ?ts = "[\<lparr>date = \<lparr>year = 2024, month = 1, day = 1\<rparr>, payee = ''Bad'',
             postings =
               [\<lparr>account = ''Expenses:Food'', amount = Some \<lparr>coefficient = 1000, places = 2\<rparr>,
                  currency = ''INR''\<rparr>,
                \<lparr>account = ''Assets:Cash'', amount = None, currency = ''INR''\<rparr>]\<rparr>,
            \<lparr>date = \<lparr>year = 2024, month = 1, day = 2\<rparr>, payee = ''Good'',
             postings =
               [\<lparr>account = ''Expenses:Food'', amount = Some \<lparr>coefficient = 2000, places = 2\<rparr>,
                  currency = ''INR''\<rparr>,
                \<lparr>account = ''Assets:Cash'', amount = None, currency = ''INR''\<rparr>]\<rparr>]"
  have parsed: "parse_ledger_file ?fs ''ledger'' = Inr ?ts"
    by (simp add: text_eval parse_eval)
  have c1: "length (filter is_created (outcomes ?proc ?ts empty_db)) = 1"
    by (simp add: text_eval hash_eval store_eval)
  have c2: "length (filter is_raised (outcomes ?proc ?ts empty_db))
              + length (filter is_none (outcomes ?proc ?ts empty_db)) = 1"
    by (simp add: text_eval hash_eval store_eval)
  have c3: "length ?ts = 2" by simp
  note inst = import_errors_and_counts
    [of ?proc ?fs "Some ''ledger''" True empty_db ?ts, unfolded option.case]
  from inst [THEN conjunct2, THEN conjunct2, THEN mp, OF parsed, THEN conjunct1]
  obtain d' where eq: "import_ledger_file_with ?proc ?fs (Some ''ledger'') True empty_db
        = Inr (\<lparr>imported = length (filter is_created (outcomes ?proc ?ts empty_db)),
                skipped = length (filter is_raised (outcomes ?proc ?ts empty_db))
                          + length (filter is_none (outcomes ?proc ?ts empty_db)),
                total_parsed = length ?ts\<rparr>, d')"
    by (rule exE)
  have "import_ledger_file_with ?proc ?fs (Some ''ledger'') True empty_db
        = Inr (\<lparr>imported = 1, skipped = 1, total_parsed = 2\<rparr>, d')"
    by (simp only: eq c1 c2 c3)
  then have run: "\<exists>d'. import_ledger_file_with ?proc ?fs (Some ''ledger'') True empty_db
        = Inr (\<lparr>imported = 1, skipped = 1, total_parsed = 2\<rparr>, d')" ..
  have absent: "import_ledger_file_with (get_or_create_transaction id) (single_file ''ledger'' [])
        (Some ''other'') True empty_db = Inl FileNotFoundError"
    by (simp add: import_ledger_file_with_def single_file_def)
  show ?thesis using parsed run absent by (intro conjI)
qed

text \<open>
  Claim C8 as stated says that the caller sees an error only when the file does not
  exist. A path that names a directory exists, and \<^verbatim>\<open>open\<close> raises on it, outside the
  \<^verbatim>\<open>try\<close>: the error reaches the caller.
\<close>

theorem import_raises_for_existing_path:
  "single_directory ''/tmp'' ''/tmp'' \<noteq> Absent
   \<and> import_ledger_file id (single_directory ''/tmp'') (Some ''/tmp'') True empty_db
       = Inl IsADirectoryError"
  by (simp add: text_eval parse_eval hash_eval store_eval)

end
